theory Spec2Isabelle
  imports Main
begin

section \<open>JavaScript values used by the tracker\<close>

text \<open>
  Strings are lists of 8-bit code units. Numbers that carry identifiers, weeks and
  timestamps are integers, printed in plain decimal by \<open>Number_toString\<close>; this is what
  JavaScript does on the safe integers. The season helpers take any number, so they are
  modelled on the doubles themselves: see the section on them below.
\<close>

definition digit_char :: "nat \<Rightarrow> char" where
  "digit_char d = char_of (48 + d)"

function natToString :: "nat \<Rightarrow> string" where
  "natToString n =
     (if n < 10 then [digit_char n]
      else natToString (n div 10) @ [digit_char (n mod 10)])"
  by pat_completeness auto
termination
  by (relation "measure (\<lambda>n. n)") auto

declare natToString.simps [simp del]

text \<open>\<open>Number.prototype.toString()\<close> on an integer: a minus sign, then the decimal digits.\<close>

definition Number_toString :: "int \<Rightarrow> string" where
  "Number_toString n =
     (if n < 0 then CHR ''-'' # natToString (nat (- n)) else natToString (nat n))"

text \<open>White space and line terminators of ECMAScript that fit a code unit below 256.\<close>

definition isWhiteSpace :: "char \<Rightarrow> bool" where
  "isWhiteSpace c =
     (let n = (of_char c :: nat)
      in n = 9 \<or> n = 10 \<or> n = 11 \<or> n = 12 \<or> n = 13 \<or> n = 32 \<or> n = 160)"

text \<open>\<open>String.prototype.trim()\<close>: white space is removed at both ends.\<close>

definition trim :: "string \<Rightarrow> string" where
  "trim s = rev (dropWhile isWhiteSpace (rev (dropWhile isWhiteSpace s)))"

text \<open>The value of a character as a digit of radix \<open>R\<close>, if it is one.\<close>

definition radixDigit :: "nat \<Rightarrow> char \<Rightarrow> nat option" where
  "radixDigit R c =
     (let n = (of_char c :: nat);
          v = (if 48 \<le> n \<and> n \<le> 57 then Some (n - 48)
               else if 97 \<le> n \<and> n \<le> 122 then Some (n - 87)
               else if 65 \<le> n \<and> n \<le> 90 then Some (n - 55)
               else None)
      in case v of None \<Rightarrow> None | Some d \<Rightarrow> if d < R then Some d else None)"

text \<open>
  The mathematical integer that \<open>parseInt(string)\<close> reads, with no radix argument:
  leading white space is skipped, a sign is read, a \<open>0x\<close> or \<open>0X\<close> prefix selects radix
  16, and the longest prefix of digits is the value. With no digit there is none.
\<close>

definition parseInt_mathInt :: "string \<Rightarrow> int option" where
  "parseInt_mathInt inputString =
     (let S = dropWhile isWhiteSpace inputString;
          sign = (if S \<noteq> [] \<and> hd S = CHR ''-'' then - 1 else (1::int));
          S1 = (if S \<noteq> [] \<and> (hd S = CHR ''+'' \<or> hd S = CHR ''-'') then tl S else S);
          hex = (take 2 S1 = ''0x'' \<or> take 2 S1 = ''0X'');
          R = (if hex then 16 else (10::nat));
          S2 = (if hex then drop 2 S1 else S1);
          Z = takeWhile (\<lambda>c. radixDigit R c \<noteq> None) S2
      in if Z = [] then None
         else Some (sign * int (foldl (\<lambda>a c. a * R + the (radixDigit R c)) 0 Z)))"

section \<open>Numbers as doubles\<close>

text \<open>
  A number is \<open>NaN\<close>, an infinity, or a finite double with an integer value, given by
  that integer. (The season helpers produce no other numbers from an integer year or
  from any string.) \<open>Finite n\<close> is meant for an \<open>n\<close> that is a double, that is, one that
  \<open>roundToDouble\<close> leaves as it is.
\<close>

datatype Number = NaN | Infinity | NegInfinity | Finite int

function bitLength :: "nat \<Rightarrow> nat" where
  "bitLength n = (if n = 0 then 0 else Suc (bitLength (n div 2)))"
  by pat_completeness auto
termination
  by (relation "measure (\<lambda>n. n)") auto

declare bitLength.simps [simp del]

text \<open>
  The double nearest to a natural number: with more than 53 bits the number is rounded to
  53 significant bits, a tie going to the even significand.
\<close>

definition roundNat :: "nat \<Rightarrow> nat" where
  "roundNat m =
     (if bitLength m \<le> 53 then m
      else
        let q = 2 ^ (bitLength m - 53);
            significand = m div q;
            r = m mod q;
            up = (q < 2 * r \<or> (2 * r = q \<and> odd significand))
        in (if up then significand + 1 else significand) * q)"

definition roundToDouble :: "int \<Rightarrow> int" where
  "roundToDouble n = sgn n * int (roundNat (nat \<bar>n\<bar>))"

text \<open>
  The number that an exact integer result becomes: from \<open>2^1024 - 2^970\<close>, the midpoint
  above the largest double, it is an infinity.
\<close>

definition toNumber :: "int \<Rightarrow> Number" where
  "toNumber n =
     (if 2 ^ 1024 - 2 ^ 970 \<le> \<bar>n\<bar> then (if n < 0 then NegInfinity else Infinity)
      else Finite (roundToDouble n))"

text \<open>\<open>x + k\<close> and \<open>x - k\<close> for an integer constant \<open>k\<close>.\<close>

definition Number_add :: "Number \<Rightarrow> int \<Rightarrow> Number" where
  "Number_add x k = (case x of Finite n \<Rightarrow> toNumber (n + k) | _ \<Rightarrow> x)"

text \<open>
  \<open>Number.prototype.toString()\<close> prints the shortest digit string that denotes the
  double, and of those the one nearest to it. \<open>shortest m e\<close> looks for it among the
  multiples of \<open>10^e\<close> next to \<open>m\<close>, then of \<open>10^(e-1)\<close>, and so on: the first that
  rounds to \<open>m\<close> has the fewest digits before its zeros.
\<close>

function shortest :: "nat \<Rightarrow> nat \<Rightarrow> nat" where
  "shortest m e =
     (if e = 0 then m
      else
        let q = 10 ^ e;
            lo = (m div q) * q;
            hi = lo + q;
            okLo = (roundNat lo = m);
            okHi = (roundNat hi = m)
        in if okLo \<and> okHi
           then (if m - lo < hi - m then lo
                 else if hi - m < m - lo then hi
                 else if even (m div q) then lo else hi)
           else if okLo then lo
           else if okHi then hi
           else shortest m (e - 1))"
  by pat_completeness auto
termination
  by (relation "measure (\<lambda>(m, e). e)") auto

declare shortest.simps [simp del]

text \<open>
  The exponent form, used from \<open>10^21\<close> on: the digits without the zeros at the end, a
  point after the first when there are more, and the decimal exponent.
\<close>

definition exponentForm :: "nat \<Rightarrow> string" where
  "exponentForm c =
     (let ds = natToString c;
          significant = rev (dropWhile (\<lambda>ch. ch = CHR ''0'') (rev ds))
      in (if length significant = 1 then significant
          else hd significant # CHR ''.'' # tl significant)
         @ ''e+'' @ natToString (length ds - 1))"

definition numberToString :: "Number \<Rightarrow> string" where
  "numberToString x =
     (case x of
        NaN \<Rightarrow> ''NaN''
      | Infinity \<Rightarrow> ''Infinity''
      | NegInfinity \<Rightarrow> ''-Infinity''
      | Finite n \<Rightarrow>
          if n = 0 then ''0''
          else
            let m = nat \<bar>n\<bar>;
                c = shortest m (length (natToString m) - 1)
            in (if n < 0 then ''-'' else [])
               @ (if c < 10 ^ 21 then natToString c else exponentForm c))"

text \<open>
  \<open>parseInt(string)\<close>: the integer read, as a number, or \<open>NaN\<close>. (Past twenty significant
  digits an implementation may read an approximation; the model reads the exact value.)
\<close>

definition parseInt :: "string \<Rightarrow> Number" where
  "parseInt inputString =
     (case parseInt_mathInt inputString of None \<Rightarrow> NaN | Some v \<Rightarrow> toNumber v)"

section \<open>Season helpers (utils.ts)\<close>

text \<open>\<open>(year - 1917).toString()\<close>.\<close>

definition seasonIdForYear :: "Number \<Rightarrow> string" where
  "seasonIdForYear year = numberToString (Number_add year (- 1917))"

text \<open>\<open>parseInt(seasonId) + 1917\<close>.\<close>

definition yearForSeasonId :: "string \<Rightarrow> Number" where
  "yearForSeasonId seasonId = Number_add (parseInt seasonId) 1917"

section \<open>The cache (db.ts, types.ts)\<close>

datatype Key = KStr string | KNum int

record 'a CacheItem =
  key :: Key
  data :: 'a
  timestamp :: int

definition CACHE_DURATION_MS :: int where
  "CACHE_DURATION_MS = 60 * 60 * 1000"

text \<open>
  \<open>isCacheValid(item)\<close>. The first argument is the value \<open>Date.now()\<close> returns when the
  function reads the clock; \<open>null\<close> is \<open>None\<close>.
\<close>

definition isCacheValid :: "int \<Rightarrow> 'a CacheItem option \<Rightarrow> bool" where
  "isCacheValid now item =
     (case item of None \<Rightarrow> False | Some i \<Rightarrow> now - timestamp i < CACHE_DURATION_MS)"

section \<open>Entities (types.ts)\<close>

record Club =
  Club_id :: int
  Club_name :: string

record Competition =
  Competition_id :: int
  Competition_name :: string

record Team =
  Team_id :: int
  Team_name :: string
  Team_clubId :: int
  Team_clubName :: string
  Team_competitions :: "Competition list"
  Team_ageCategory :: string
  Team_genre :: string

record Player =
  personId :: int
  firstName :: string
  lastName :: string

record Side =
  Side_id :: int
  Side_name :: string
  Side_players :: "Player list"

record Match =
  Match_id :: int
  week :: int
  homeTeam :: Side
  awayTeam :: Side

record PlayerUsageData =
  players :: "string \<rightharpoonup> string"
  weeks :: "string list"
  usage :: "string \<rightharpoonup> (string \<rightharpoonup> string)"

section \<open>JavaScript collections\<close>

text \<open>
  A \<open>Map\<close> keeps its entries in insertion order: \<open>set\<close> on a key that is present replaces
  the value where the entry stands, and on a new key appends an entry.
\<close>

fun Map_set :: "'k \<Rightarrow> 'v \<Rightarrow> ('k \<times> 'v) list \<Rightarrow> ('k \<times> 'v) list" where
  "Map_set k v [] = [(k, v)]"
| "Map_set k v (e # m) = (if fst e = k then (k, v) # m else e # Map_set k v m)"

text \<open>A \<open>Set\<close> is the list of its elements in insertion order.\<close>

definition Set_has :: "'a list \<Rightarrow> 'a \<Rightarrow> bool" where
  "Set_has s x = (x \<in> set s)"

definition Set_add :: "'a \<Rightarrow> 'a list \<Rightarrow> 'a list" where
  "Set_add x s = (if Set_has s x then s else s @ [x])"

definition Set_of :: "'a list \<Rightarrow> 'a list" where
  "Set_of xs = foldl (\<lambda>s x. Set_add x s) [] xs"

section \<open>Club search: parsing the remote list (Tracker.tsx, searchForClubs)\<close>

record RawClubData =
  "value" :: int
  label :: string

text \<open>
  The test \<open>club.value && club.label && club.label.trim() !== ''\<close>: a number is truthy
  unless it is zero, a string unless it is empty.
\<close>

definition keepClub :: "RawClubData \<Rightarrow> bool" where
  "keepClub club = (value club \<noteq> 0 \<and> label club \<noteq> [] \<and> trim (label club) \<noteq> [])"

definition uniqueClubs :: "RawClubData list \<Rightarrow> (int \<times> RawClubData) list" where
  "uniqueClubs rawData =
     foldl (\<lambda>m club. if keepClub club then Map_set (value club) club m else m) [] rawData"

definition parseClubs :: "RawClubData list \<Rightarrow> Club list" where
  "parseClubs rawData =
     map (\<lambda>e. \<lparr>Club_id = value (snd e), Club_name = label (snd e)\<rparr>) (uniqueClubs rawData)"

section \<open>The fold step (Tracker.tsx, handleFetchPlayerUsage)\<close>

definition weekLabel :: "int \<Rightarrow> string" where
  "weekLabel w = ''Uke '' @ Number_toString w"

record FoldAcc =
  acc_players :: "string \<rightharpoonup> string"
  acc_usage :: "string \<rightharpoonup> (string \<rightharpoonup> string)"
  weekSet :: "int list"

definition emptyAcc :: FoldAcc where
  "emptyAcc = \<lparr>acc_players = Map.empty, acc_usage = Map.empty, weekSet = []\<rparr>"

text \<open>\<open>!players[playerId]\<close>: the entry is missing, or it is the empty string.\<close>

definition unseen :: "(string \<rightharpoonup> string) \<Rightarrow> string \<Rightarrow> bool" where
  "unseen ps playerId = (case ps playerId of None \<Rightarrow> True | Some n \<Rightarrow> n = [])"

text \<open>
  The body of \<open>team.players.forEach\<close>. The assignment \<open>usage[playerId][...] = team.name\<close>
  throws a \<open>TypeError\<close> when \<open>usage[playerId]\<close> is undefined; the exception leaves the
  loops and reaches the handler's \<open>catch\<close>.
\<close>

definition recordPlayer :: "int \<Rightarrow> string \<Rightarrow> Player \<Rightarrow> FoldAcc \<Rightarrow> string + FoldAcc" where
  "recordPlayer wk teamName player acc =
     (let playerId = Number_toString (personId player);
          acc1 = (if unseen (acc_players acc) playerId
                  then acc\<lparr>acc_players := (acc_players acc)
                                (playerId \<mapsto> firstName player @ '' '' @ lastName player),
                            acc_usage := (acc_usage acc)(playerId \<mapsto> Map.empty)\<rparr>
                  else acc)
      in case acc_usage acc1 playerId of
           None \<Rightarrow> Inl ''TypeError''
         | Some row \<Rightarrow>
             Inr (acc1\<lparr>acc_usage := (acc_usage acc1)
                                (playerId \<mapsto> row(weekLabel wk \<mapsto> teamName))\<rparr>))"

fun forEachPlayer :: "int \<Rightarrow> string \<Rightarrow> Player list \<Rightarrow> FoldAcc \<Rightarrow> string + FoldAcc" where
  "forEachPlayer wk teamName [] acc = Inr acc"
| "forEachPlayer wk teamName (p # ps) acc =
     (case recordPlayer wk teamName p acc of
        Inl e \<Rightarrow> Inl e
      | Inr acc' \<Rightarrow> forEachPlayer wk teamName ps acc')"

text \<open>The body of \<open>allMatchDetails.forEach\<close>.\<close>

definition foldMatch :: "int list \<Rightarrow> Match \<Rightarrow> FoldAcc \<Rightarrow> string + FoldAcc" where
  "foldMatch selectedTeamIds m acc =
     (let team = (if Set_has selectedTeamIds (Side_id (homeTeam m))
                  then homeTeam m else awayTeam m)
      in if \<not> Set_has selectedTeamIds (Side_id team) then Inr acc
         else forEachPlayer (week m) (Side_name team) (Side_players team)
                (acc\<lparr>weekSet := Set_add (week m) (weekSet acc)\<rparr>))"

fun forEachMatch :: "int list \<Rightarrow> Match list \<Rightarrow> FoldAcc \<Rightarrow> string + FoldAcc" where
  "forEachMatch selectedTeamIds [] acc = Inr acc"
| "forEachMatch selectedTeamIds (m # ms) acc =
     (case foldMatch selectedTeamIds m acc of
        Inl e \<Rightarrow> Inl e
      | Inr acc' \<Rightarrow> forEachMatch selectedTeamIds ms acc')"

text \<open>
  The fold over all match details, and the result built from it: the week set is sorted
  by \<open>(a, b) => a - b\<close> and each week is formatted.
\<close>

definition foldUsage :: "int list \<Rightarrow> Match list \<Rightarrow> string + PlayerUsageData" where
  "foldUsage selectedTeamIds allMatchDetails =
     (case forEachMatch selectedTeamIds allMatchDetails emptyAcc of
        Inl e \<Rightarrow> Inl e
      | Inr acc \<Rightarrow>
          Inr \<lparr>players = acc_players acc,
               weeks = map weekLabel (sort (weekSet acc)),
               usage = acc_usage acc\<rparr>)"

section \<open>The component, the database and the network\<close>

text \<open>
  What the remote side and the browser decide is an environment the handlers read:
  the bearer token (a prop), the clock, whether a database request fails, and the
  response to each request. Each of them may depend on how many effects came before, so
  the same request can be answered differently at different moments. \<open>race\<close> decides
  which rejection of a \<open>Promise.all\<close> arrives first.
\<close>

record MatchStub =
  MatchStub_id :: int

datatype Store = ClubSearch | Teams | MatchLists | MatchDetails

datatype Request =
    SearchClubs string string
  | GetTeams string int
  | GetMatches string int int
  | GetMatch string int

datatype Event = DbGet Store Key | DbPut Store Key | Fetch Request | Activity

text \<open>
  \<open>fetch\<close> rejects (a transport failure), or resolves to a response with a status whose
  body \<open>json()\<close> parses or rejects.
\<close>

datatype 'a Body = Unparsable string | Json 'a

datatype 'a Response = NetworkError string | Response nat "'a Body"

record Env =
  token :: string
  clock :: "nat \<Rightarrow> int"
  dbError :: "nat \<Rightarrow> string option"
  searchClubsResponse :: "nat \<Rightarrow> string \<Rightarrow> string \<Rightarrow> RawClubData list Response"
  teamsResponse :: "nat \<Rightarrow> int \<Rightarrow> Team list Response"
  matchesResponse :: "nat \<Rightarrow> int \<Rightarrow> int \<Rightarrow> MatchStub list Response"
  matchResponse :: "nat \<Rightarrow> int \<Rightarrow> Match Response"
  race :: nat

text \<open>
  The state of the \<open>Tracker\<close> component (its \<open>useState\<close> cells), the four object stores
  of the database, and the trace of the effects performed so far.
\<close>

record TrackerState =
  loading :: "string \<rightharpoonup> bool"
  error :: "string option"
  clubQuery :: string
  seasonId :: string
  clubs :: "Club list"
  selectedClub :: "Club option"
  allTeams :: "Team list"
  genreFilter :: string
  ageFilter :: string
  selectedTeamIds :: "int list"
  competitionId :: "int option"
  playerUsage :: "PlayerUsageData option"
  clubSearchDB :: "Key \<rightharpoonup> Club list CacheItem"
  teamsDB :: "Key \<rightharpoonup> Team list CacheItem"
  matchListsDB :: "Key \<rightharpoonup> MatchStub list CacheItem"
  matchDetailsDB :: "Key \<rightharpoonup> Match CacheItem"
  trace :: "Event list"

text \<open>
  An asynchronous computation runs on the state and resolves to a value or rejects with
  an error message; \<open>await\<close> continues with the value and passes a rejection on.
\<close>

type_synonym 'a Async = "TrackerState \<Rightarrow> (string + 'a) \<times> TrackerState"

definition resolve :: "'a \<Rightarrow> 'a Async" where
  "resolve x = (\<lambda>s. (Inr x, s))"

definition reject :: "string \<Rightarrow> 'a Async" where
  "reject e = (\<lambda>s. (Inl e, s))"

definition await :: "'a Async \<Rightarrow> ('a \<Rightarrow> 'b Async) \<Rightarrow> 'b Async" where
  "await m f = (\<lambda>s. case m s of (Inl e, s') \<Rightarrow> (Inl e, s') | (Inr x, s') \<Rightarrow> f x s')"

definition log :: "Event \<Rightarrow> TrackerState \<Rightarrow> TrackerState" where
  "log e s = s\<lparr>trace := trace s @ [e]\<rparr>"

definition Date_now :: "Env \<Rightarrow> int Async" where
  "Date_now env = (\<lambda>s. (Inr (clock env (length (trace s))), s))"

subsection \<open>db.ts\<close>

text \<open>
  \<open>getFromDB\<close> resolves to the stored item or to \<open>null\<close>, and rejects when the database
  cannot be opened or the request fails. The store is named, and given by its field.
\<close>

definition getFromDB ::
  "Env \<Rightarrow> Store \<Rightarrow> (TrackerState \<Rightarrow> Key \<rightharpoonup> 'a CacheItem) \<Rightarrow> Key \<Rightarrow> 'a CacheItem option Async" where
  "getFromDB env storeName store k =
     (\<lambda>s. case dbError env (length (trace s)) of
             Some e \<Rightarrow> (Inl e, log (DbGet storeName k) s)
           | None \<Rightarrow> (Inr (store s k), log (DbGet storeName k) s))"

text \<open>\<open>setToDB\<close> puts the item under its own key, or rejects and stores nothing.\<close>

definition setToDB ::
  "Env \<Rightarrow> Store \<Rightarrow>
   (((Key \<rightharpoonup> 'a CacheItem) \<Rightarrow> (Key \<rightharpoonup> 'a CacheItem)) \<Rightarrow> TrackerState \<Rightarrow> TrackerState) \<Rightarrow>
   'a CacheItem \<Rightarrow> unit Async" where
  "setToDB env storeName store_update item =
     (\<lambda>s. case dbError env (length (trace s)) of
             Some e \<Rightarrow> (Inl e, log (DbPut storeName (key item)) s)
           | None \<Rightarrow>
               (Inr (), store_update (\<lambda>m. m(key item \<mapsto> item))
                          (log (DbPut storeName (key item)) s)))"

text \<open>\<open>cached.data\<close>; on \<open>null\<close> the property access throws.\<close>

definition cachedData :: "'a CacheItem option \<Rightarrow> 'a Async" where
  "cachedData cached =
     (case cached of None \<Rightarrow> reject ''TypeError'' | Some item \<Rightarrow> resolve (data item))"

subsection \<open>api.ts and the responses\<close>

definition fetch :: "Request \<Rightarrow> (nat \<Rightarrow> 'a Response) \<Rightarrow> (nat \<times> 'a Body) Async" where
  "fetch req respond =
     (\<lambda>s. case respond (length (trace s)) of
             NetworkError e \<Rightarrow> (Inl e, log (Fetch req) s)
           | Response status body \<Rightarrow> (Inr (status, body), log (Fetch req) s))"

definition ok :: "nat \<Rightarrow> bool" where
  "ok status = (200 \<le> status \<and> status \<le> 299)"

definition json :: "'a Body \<Rightarrow> 'a Async" where
  "json body = (case body of Unparsable e \<Rightarrow> reject e | Json x \<Rightarrow> resolve x)"

subsection \<open>Promise.all\<close>

text \<open>
  The tasks are started in array order and none is cancelled: every task runs to its
  end, also after another one has rejected. Each task of the handlers works on a cache
  key of its own, and here one task finishes before the next begins.
\<close>

fun runAll :: "'a Async list \<Rightarrow> TrackerState \<Rightarrow> (string + 'a) list \<times> TrackerState" where
  "runAll [] s = ([], s)"
| "runAll (t # ts) s =
     (case t s of (r, s') \<Rightarrow> (case runAll ts s' of (rs, s'') \<Rightarrow> (r # rs, s'')))"

fun rejections :: "(string + 'a) list \<Rightarrow> string list" where
  "rejections [] = []"
| "rejections (Inl e # rs) = e # rejections rs"
| "rejections (Inr x # rs) = rejections rs"

fun fulfilled :: "(string + 'a) list \<Rightarrow> 'a list" where
  "fulfilled [] = []"
| "fulfilled (Inl e # rs) = fulfilled rs"
| "fulfilled (Inr x # rs) = x # fulfilled rs"

text \<open>
  \<open>Promise.all\<close> resolves to all values when no task rejects, and otherwise rejects with
  the rejection that came first in time, which \<open>race\<close> picks among the rejections.
\<close>

definition Promise_all :: "nat \<Rightarrow> 'a Async list \<Rightarrow> 'a list Async" where
  "Promise_all first tasks =
     (\<lambda>s. case runAll tasks s of
             (rs, s') \<Rightarrow>
               (if rejections rs = [] then (Inr (fulfilled rs), s')
                else (Inl (rejections rs ! (first mod length (rejections rs))), s')))"

text \<open>The state in which the task at position \<open>k\<close> of the array starts.\<close>

definition taskState :: "'a Async list \<Rightarrow> nat \<Rightarrow> TrackerState \<Rightarrow> TrackerState" where
  "taskState tasks k s = snd (runAll (take k tasks) s)"

subsection \<open>State setters\<close>

definition setLoading :: "string \<Rightarrow> bool \<Rightarrow> TrackerState \<Rightarrow> TrackerState" where
  "setLoading k b s = s\<lparr>loading := (loading s)(k \<mapsto> b)\<rparr>"

definition setClubs :: "Club list \<Rightarrow> unit Async" where
  "setClubs cs = (\<lambda>s. (Inr (), s\<lparr>clubs := cs\<rparr>))"

definition setAllTeams :: "Team list \<Rightarrow> unit Async" where
  "setAllTeams ts = (\<lambda>s. (Inr (), s\<lparr>allTeams := ts\<rparr>))"

definition setPlayerUsage :: "PlayerUsageData option \<Rightarrow> unit Async" where
  "setPlayerUsage u = (\<lambda>s. (Inr (), s\<lparr>playerUsage := u\<rparr>))"

subsection \<open>searchForClubs\<close>

definition searchForClubs_try :: "Env \<Rightarrow> string \<Rightarrow> string \<Rightarrow> unit Async" where
  "searchForClubs_try env query season =
     (let cacheKey = KStr (query @ ''-'' @ season) in
      await (getFromDB env ClubSearch clubSearchDB cacheKey) (\<lambda>cached.
      await (Date_now env) (\<lambda>now.
      if isCacheValid now cached then await (cachedData cached) setClubs
      else
        await (fetch (SearchClubs query season)
                 (\<lambda>t. searchClubsResponse env t query season)) (\<lambda>(status, body).
        if \<not> ok status
        then reject (''Failed to fetch clubs. Status: '' @ Number_toString (int status))
        else
          await (json body) (\<lambda>rawData.
          let d = parseClubs rawData in
          await (setClubs d) (\<lambda>_.
          await (Date_now env) (\<lambda>now'.
          setToDB env ClubSearch clubSearchDB_update
            \<lparr>key = cacheKey, data = d, timestamp = now'\<rparr>)))))))"

definition searchForClubs :: "Env \<Rightarrow> TrackerState \<Rightarrow> TrackerState" where
  "searchForClubs env s =
     (if clubQuery s = [] then s
      else
        let s1 = log Activity s;
            s2 = setLoading ''clubs'' True s1;
            s3 = s2\<lparr>error := None\<rparr>
        in case searchForClubs_try env (clubQuery s) (seasonId s) s3 of
             (Inl err, s4) \<Rightarrow> setLoading ''clubs'' False (s4\<lparr>error := Some err, clubs := []\<rparr>)
           | (Inr _, s4) \<Rightarrow> setLoading ''clubs'' False s4)"

subsection \<open>Selecting a club, and the effects that depend on the selected club\<close>

definition handleSelectClub :: "Club \<Rightarrow> TrackerState \<Rightarrow> TrackerState" where
  "handleSelectClub club s =
     s\<lparr>selectedClub := Some club, clubs := [], clubQuery := [],
       playerUsage := None, selectedTeamIds := []\<rparr>"

definition fetchTeams_try :: "Env \<Rightarrow> Club \<Rightarrow> unit Async" where
  "fetchTeams_try env club =
     await (getFromDB env Teams teamsDB (KNum (Club_id club))) (\<lambda>cached.
     await (Date_now env) (\<lambda>now.
     if isCacheValid now cached then await (cachedData cached) setAllTeams
     else
       await (fetch (GetTeams (token env) (Club_id club))
                (\<lambda>t. teamsResponse env t (Club_id club))) (\<lambda>(status, body).
       if \<not> ok status then reject ''Failed to fetch teams.''
       else
         await (json body) (\<lambda>d.
         await (setAllTeams d) (\<lambda>_.
         await (Date_now env) (\<lambda>now'.
         setToDB env Teams teamsDB_update
           \<lparr>key = KNum (Club_id club), data = d, timestamp = now'\<rparr>))))))"

text \<open>The effect with dependencies \<open>[selectedClub, token, onActivity]\<close>.\<close>

definition fetchTeams :: "Env \<Rightarrow> TrackerState \<Rightarrow> TrackerState" where
  "fetchTeams env s =
     (case selectedClub s of
        None \<Rightarrow> s
      | Some club \<Rightarrow>
          let s1 = log Activity s;
              s2 = setLoading ''teams'' True s1;
              s3 = s2\<lparr>error := None\<rparr>
          in case fetchTeams_try env club s3 of
               (Inl err, s4) \<Rightarrow> setLoading ''teams'' False (s4\<lparr>error := Some err\<rparr>)
             | (Inr _, s4) \<Rightarrow> setLoading ''teams'' False s4)"

text \<open>The effect with dependencies \<open>[selectedClub]\<close>.\<close>

definition competitionEffect :: "TrackerState \<Rightarrow> TrackerState" where
  "competitionEffect s = s\<lparr>competitionId := None\<rparr>"

text \<open>
  A click on a club of the list: the handler runs, and after the render the effects that
  depend on \<open>selectedClub\<close> run when React finds the dependency changed. React compares
  the old and the new club object by identity, which their values do not decide, so the
  outcome of the comparison is the argument \<open>changed\<close>. The two effects write different
  cells, so their order does not matter.
\<close>

definition selectClub :: "Env \<Rightarrow> bool \<Rightarrow> Club \<Rightarrow> TrackerState \<Rightarrow> TrackerState" where
  "selectClub env changed club s =
     (let s1 = handleSelectClub club s
      in if changed then competitionEffect (fetchTeams env s1) else s1)"

subsection \<open>handleFetchPlayerUsage\<close>

definition fetchMatchList :: "Env \<Rightarrow> int \<Rightarrow> int \<Rightarrow> MatchStub list Async" where
  "fetchMatchList env competition teamId =
     (let cacheKey = KStr (Number_toString teamId @ ''-'' @ Number_toString competition) in
      await (getFromDB env MatchLists matchListsDB cacheKey) (\<lambda>cached.
      await (Date_now env) (\<lambda>now.
      if isCacheValid now cached then cachedData cached
      else
        await (fetch (GetMatches (token env) teamId competition)
                 (\<lambda>t. matchesResponse env t teamId competition)) (\<lambda>(status, body).
        if \<not> ok status
        then reject (''Failed fetching matches for team '' @ Number_toString teamId)
        else
          await (json body) (\<lambda>d.
          await (Date_now env) (\<lambda>now'.
          await (setToDB env MatchLists matchListsDB_update
                   \<lparr>key = cacheKey, data = d, timestamp = now'\<rparr>) (\<lambda>_.
          resolve d)))))))"

definition fetchMatchDetails :: "Env \<Rightarrow> int \<Rightarrow> Match Async" where
  "fetchMatchDetails env matchId =
     await (getFromDB env MatchDetails matchDetailsDB (KNum matchId)) (\<lambda>cached.
     await (Date_now env) (\<lambda>now.
     if isCacheValid now cached then cachedData cached
     else
       await (fetch (GetMatch (token env) matchId)
                (\<lambda>t. matchResponse env t matchId)) (\<lambda>(status, body).
       if \<not> ok status
       then reject (''Failed fetching details for match '' @ Number_toString matchId)
       else
         await (json body) (\<lambda>d.
         await (Date_now env) (\<lambda>now'.
         await (setToDB env MatchDetails matchDetailsDB_update
                  \<lparr>key = KNum matchId, data = d, timestamp = now'\<rparr>) (\<lambda>_.
         resolve d))))))"

text \<open>Stage C: the match lists of all selected teams.\<close>

definition matchLists :: "Env \<Rightarrow> int list \<Rightarrow> int \<Rightarrow> MatchStub list list Async" where
  "matchLists env teamIds competition =
     Promise_all (race env) (map (fetchMatchList env competition) teamIds)"

text \<open>Stage D: the details of all matches.\<close>

definition matchDetails :: "Env \<Rightarrow> int list \<Rightarrow> Match list Async" where
  "matchDetails env matchIds =
     Promise_all (race env) (map (fetchMatchDetails env) matchIds)"

definition emptyUsage :: PlayerUsageData where
  "emptyUsage = \<lparr>players = Map.empty, weeks = [], usage = Map.empty\<rparr>"

text \<open>The \<open>try\<close> block of the handler.\<close>

definition handleFetchPlayerUsage_try :: "Env \<Rightarrow> int list \<Rightarrow> int \<Rightarrow> unit Async" where
  "handleFetchPlayerUsage_try env selected competition =
     (let teamIds = selected in
      await (matchLists env teamIds competition) (\<lambda>lists.
      let allMatchIds = Set_of (map MatchStub_id (concat lists)) in
      if length allMatchIds = 0 then setPlayerUsage (Some emptyUsage)
      else
        await (matchDetails env allMatchIds) (\<lambda>allMatchDetails.
        case foldUsage selected allMatchDetails of
          Inl e \<Rightarrow> reject e
        | Inr u \<Rightarrow> setPlayerUsage (Some u))))"

text \<open>\<open>!competitionId\<close>: the competition is \<open>null\<close>, or it is the number zero.\<close>

definition noCompetition :: "int option \<Rightarrow> bool" where
  "noCompetition c = (case c of None \<Rightarrow> True | Some n \<Rightarrow> n = 0)"

text \<open>The statements between the validation and the \<open>try\<close> block.\<close>

definition usageStarted :: "TrackerState \<Rightarrow> TrackerState" where
  "usageStarted s =
     (let s1 = log Activity s;
          s2 = setLoading ''usage'' True s1;
          s3 = s2\<lparr>error := None\<rparr>
      in s3\<lparr>playerUsage := None\<rparr>)"

definition handleFetchPlayerUsage :: "Env \<Rightarrow> TrackerState \<Rightarrow> TrackerState" where
  "handleFetchPlayerUsage env s =
     (if length (selectedTeamIds s) = 0 \<or> noCompetition (competitionId s)
      then s\<lparr>error := Some ''Please select at least one team and a competition.''\<rparr>
      else
        case handleFetchPlayerUsage_try env (selectedTeamIds s) (the (competitionId s))
               (usageStarted s) of
          (Inl err, s5) \<Rightarrow> setLoading ''usage'' False (s5\<lparr>error := Some err\<rparr>)
        | (Inr _, s5) \<Rightarrow> setLoading ''usage'' False s5)"

section \<open>Notions used in the statements\<close>

text \<open>
  The key and the name under which the fold step records a player:
  \<open>player.personId.toString()\<close> and the template \<open>`${player.firstName} ${player.lastName}`\<close>.
\<close>

definition playerId :: "Player \<Rightarrow> string" where
  "playerId p = Number_toString (personId p)"

definition fullName :: "Player \<Rightarrow> string" where
  "fullName p = firstName p @ '' '' @ lastName p"

text \<open>
  The row of a player when a match is about to be folded: the loop body starts from the
  empty object for a player that is unseen, and from the row in \<open>usage\<close> otherwise (that
  row exists whenever the keys of \<open>usage\<close> are those of \<open>players\<close>).
\<close>

definition priorRow :: "FoldAcc \<Rightarrow> string \<Rightarrow> (string \<rightharpoonup> string)" where
  "priorRow acc k =
     (if unseen (acc_players acc) k then Map.empty
      else case acc_usage acc k of None \<Rightarrow> Map.empty | Some row \<Rightarrow> row)"

text \<open>
  The accumulator \<open>acc'\<close> is \<open>acc\<close> with the side recorded for the week: the week is in the
  week set; every player of the side has a row that is the prior row with the week's label
  set to the name of the side, and a name, which is the one held before or, for an unseen
  player, the full name of the first player of the side with that id; and no other key of
  \<open>players\<close> or \<open>usage\<close> is touched.
\<close>

definition sideRecorded :: "int \<Rightarrow> Side \<Rightarrow> FoldAcc \<Rightarrow> FoldAcc \<Rightarrow> bool" where
  "sideRecorded wk side acc acc' =
     (weekSet acc' = Set_add wk (weekSet acc)
      \<and> (\<forall>p \<in> set (Side_players side).
            acc_usage acc' (playerId p)
              = Some ((priorRow acc (playerId p))(weekLabel wk \<mapsto> Side_name side))
          \<and> acc_players acc' (playerId p)
              = (if unseen (acc_players acc) (playerId p)
                 then map_option fullName
                        (find (\<lambda>q. playerId q = playerId p) (Side_players side))
                 else acc_players acc (playerId p)))
      \<and> (\<forall>k. k \<notin> playerId ` set (Side_players side) \<longrightarrow>
            acc_usage acc' k = acc_usage acc k \<and> acc_players acc' k = acc_players acc k))"

text \<open>The contents of the four object stores.\<close>

definition stores ::
  "TrackerState \<Rightarrow>
   (Key \<rightharpoonup> Club list CacheItem) \<times> (Key \<rightharpoonup> Team list CacheItem) \<times>
   (Key \<rightharpoonup> MatchStub list CacheItem) \<times> (Key \<rightharpoonup> Match CacheItem)" where
  "stores s = (clubSearchDB s, teamsDB s, matchListsDB s, matchDetailsDB s)"

text \<open>The response is ok and its body parses.\<close>

definition succeeded :: "'a Response \<Rightarrow> bool" where
  "succeeded r =
     (case r of
        NetworkError e \<Rightarrow> False
      | Response status body \<Rightarrow>
          (case body of Unparsable e \<Rightarrow> False | Json x \<Rightarrow> ok status))"

text \<open>The effects of Stage D: a match detail request, or an access to its store.\<close>

fun matchDetailEvent :: "Event \<Rightarrow> bool" where
  "matchDetailEvent (Fetch (GetMatch t i)) = True"
| "matchDetailEvent (DbGet MatchDetails k) = True"
| "matchDetailEvent (DbPut MatchDetails k) = True"
| "matchDetailEvent e = False"

text \<open>A computation keeps an observation \<open>f\<close> of the state when no run of it changes it.\<close>

definition keeps :: "(TrackerState \<Rightarrow> 'b) \<Rightarrow> 'a Async \<Rightarrow> bool" where
  "keeps f m = (\<forall>s. f (snd (m s)) = f s)"

section \<open>Example states and environments\<close>

text \<open>The initial values of the \<open>useState\<close> cells, with empty stores and no effect so far.\<close>

definition initialState :: "string \<Rightarrow> TrackerState" where
  "initialState initialSeasonId =
     \<lparr>loading = Map.empty, error = None, clubQuery = [], seasonId = initialSeasonId,
      clubs = [], selectedClub = None, allTeams = [], genreFilter = [], ageFilter = [],
      selectedTeamIds = [], competitionId = None, playerUsage = None,
      clubSearchDB = Map.empty, teamsDB = Map.empty, matchListsDB = Map.empty,
      matchDetailsDB = Map.empty, trace = []\<rparr>"

text \<open>A remote side that does not answer: every request fails in transport.\<close>

definition offline :: Env where
  "offline =
     \<lparr>token = ''t'', clock = (\<lambda>n. 0), dbError = (\<lambda>n. None),
      searchClubsResponse = (\<lambda>n q y. NetworkError ''Failed to fetch''),
      teamsResponse = (\<lambda>n c. NetworkError ''Failed to fetch''),
      matchesResponse = (\<lambda>n t c. NetworkError ''Failed to fetch''),
      matchResponse = (\<lambda>n m. NetworkError ''Failed to fetch''),
      race = 0\<rparr>"

text \<open>
  Two teams and a competition are chosen, and an earlier analysis has left its result.
\<close>

definition twoTeamsChosen :: TrackerState where
  "twoTeamsChosen =
     (initialState ''108'')\<lparr>selectedTeamIds := [1, 2], competitionId := Some 9,
                            playerUsage := Some emptyUsage\<rparr>"

text \<open>The match list of team 2 is answered with status 500, the others with one match.\<close>

definition teamTwoDown :: Env where
  "teamTwoDown =
     offline\<lparr>matchesResponse :=
       (\<lambda>n t c. if t = 2 then Response 500 (Unparsable [])
                 else Response 200 (Json [\<lparr>MatchStub_id = 5\<rparr>]))\<rparr>"

text \<open>Every match list holds match 5, and the match details cannot be reached.\<close>

definition detailsDown :: Env where
  "detailsDown =
     offline\<lparr>matchesResponse := (\<lambda>n t c. Response 200 (Json [\<lparr>MatchStub_id = 5\<rparr>]))\<rparr>"

text \<open>Every match list is empty.\<close>

definition noMatches :: Env where
  "noMatches = offline\<lparr>matchesResponse := (\<lambda>n t c. Response 200 (Json []))\<rparr>"

text \<open>Club 1 is selected with its one team loaded and chosen.\<close>

definition teamOfClub :: "int \<Rightarrow> Team" where
  "teamOfClub c =
     \<lparr>Team_id = 10 * c + 1, Team_name = ''G15'', Team_clubId = c, Team_clubName = ''Club'',
      Team_competitions = [\<lparr>Competition_id = 9, Competition_name = ''Serie''\<rparr>],
      Team_ageCategory = ''15'', Team_genre = ''G''\<rparr>"

definition clubOneLoaded :: TrackerState where
  "clubOneLoaded =
     (initialState ''108'')\<lparr>selectedClub := Some \<lparr>Club_id = 1, Club_name = ''Nesodden IF''\<rparr>,
                            allTeams := [teamOfClub 1], selectedTeamIds := [11],
                            competitionId := Some 9, playerUsage := Some emptyUsage\<rparr>"

text \<open>The team list of every club is answered with its one team.\<close>

definition teamsServed :: Env where
  "teamsServed = offline\<lparr>teamsResponse := (\<lambda>n c. Response 200 (Json [teamOfClub c]))\<rparr>"

section \<open>Properties\<close>

subsection \<open>Decimal rendering and \<open>parseInt\<close>\<close>

lemma of_char_digit_char: "d < 10 \<Longrightarrow> (of_char (digit_char d) :: nat) = 48 + d"
  by (simp add: digit_char_def)

lemma radixDigit_digit_char: "d < 10 \<Longrightarrow> radixDigit 10 (digit_char d) = Some d"
  by (simp add: radixDigit_def of_char_digit_char)

lemma digit_char_not_ws: "d < 10 \<Longrightarrow> \<not> isWhiteSpace (digit_char d)"
  by (simp add: isWhiteSpace_def of_char_digit_char)

lemma digit_char_neq: "d < 10 \<Longrightarrow> (of_char c :: nat) < 48 \<or> 57 < (of_char c :: nat) \<Longrightarrow> digit_char d \<noteq> c"
  using of_char_digit_char [of d] by auto

lemma natToString_digits: "c \<in> set (natToString n) \<Longrightarrow> \<exists>d<10. c = digit_char d"
proof (induction n rule: natToString.induct)
  case (1 n)
  show ?case
  proof (cases "n < 10")
    case True
    with "1.prems" show ?thesis by (auto simp: natToString.simps [of n])
  next
    case False
    with "1.prems" have "c \<in> set (natToString (n div 10)) \<or> c = digit_char (n mod 10)"
      by (auto simp: natToString.simps [of n])
    then show ?thesis
    proof
      assume "c \<in> set (natToString (n div 10))"
      with "1.IH" False show ?thesis by simp
    next
      assume "c = digit_char (n mod 10)"
      then show ?thesis by (intro exI [of _ "n mod 10"]) simp
    qed
  qed
qed

lemma natToString_nonempty: "natToString n \<noteq> []"
  by (subst natToString.simps) simp

lemma natToString_value:
  "foldl (\<lambda>a c. a * 10 + the (radixDigit 10 c)) 0 (natToString n) = n"
proof (induction n rule: natToString.induct)
  case (1 n)
  show ?case
  proof (cases "n < 10")
    case True
    then show ?thesis by (simp add: natToString.simps [of n] radixDigit_digit_char)
  next
    case False
    with "1.IH" show ?thesis
      by (simp add: natToString.simps [of n] radixDigit_digit_char)
  qed
qed

lemma natToString_hd:
  "\<exists>d<10. hd (natToString n) = digit_char d"
  using natToString_digits [of "hd (natToString n)" n] natToString_nonempty [of n]
  by simp

lemma natToString_no_hex: "take 2 (natToString n) \<noteq> [CHR ''0'', c]" if "radixDigit 10 c = None"
proof
  assume a: "take 2 (natToString n) = [CHR ''0'', c]"
  then have "c \<in> set (take 2 (natToString n))" by simp
  then have "c \<in> set (natToString n)" by (rule in_set_takeD)
  then obtain d where "d < 10" "c = digit_char d" using natToString_digits by blast
  with that show False by (simp add: radixDigit_digit_char)
qed

lemma natToString_takeWhile:
  "takeWhile (\<lambda>c. radixDigit 10 c \<noteq> None) (natToString n) = natToString n"
proof -
  have "\<forall>c\<in>set (natToString n). radixDigit 10 c \<noteq> None"
    using natToString_digits radixDigit_digit_char by fastforce
  then show ?thesis by (simp add: takeWhile_eq_all_conv)
qed

lemma natToString_takeWhile':
  "takeWhile (\<lambda>c. \<exists>y. radixDigit 10 c = Some y) (natToString n) = natToString n"
  using natToString_takeWhile [of n] by simp

lemma parseInt_mathInt_natToString: "parseInt_mathInt (natToString n) = Some (int n)"
proof -
  obtain d where d: "d < 10" "hd (natToString n) = digit_char d"
    using natToString_hd by blast
  have ne: "natToString n \<noteq> []" by (rule natToString_nonempty)
  have ws: "dropWhile isWhiteSpace (natToString n) = natToString n"
    using ne d digit_char_not_ws [of d] by (cases "natToString n") auto
  have sg: "hd (natToString n) \<noteq> CHR ''-''" "hd (natToString n) \<noteq> CHR ''+''"
    using d digit_char_neq [of d] by simp_all
  have hx: "take 2 (natToString n) \<noteq> ''0x''" "take 2 (natToString n) \<noteq> ''0X''"
    by (rule natToString_no_hex, simp add: radixDigit_def)+
  show ?thesis
    unfolding parseInt_mathInt_def
    by (simp add: ws sg hx ne natToString_takeWhile' natToString_value Let_def)
qed

lemma parseInt_mathInt_neg_natToString:
  "parseInt_mathInt (CHR ''-'' # natToString n) = Some (- int n)"
proof -
  have ne: "natToString n \<noteq> []" by (rule natToString_nonempty)
  have ws: "\<not> isWhiteSpace CHR ''-''"
    by (simp add: isWhiteSpace_def)
  have hx: "take 2 (natToString n) \<noteq> ''0x''" "take 2 (natToString n) \<noteq> ''0X''"
    by (rule natToString_no_hex, simp add: radixDigit_def)+
  show ?thesis
    unfolding parseInt_mathInt_def
    by (simp add: ws hx ne natToString_takeWhile' natToString_value Let_def)
qed

lemma parseInt_mathInt_Number_toString: "parseInt_mathInt (Number_toString n) = Some n"
  by (simp add: Number_toString_def parseInt_mathInt_natToString parseInt_mathInt_neg_natToString)

lemma Number_toString_inj: "Number_toString a = Number_toString b \<Longrightarrow> a = b"
  by (metis option.inject parseInt_mathInt_Number_toString)

subsection \<open>Doubles\<close>

lemma bitLength_le: "m < 2 ^ k \<Longrightarrow> bitLength m \<le> k"
proof (induction m arbitrary: k rule: bitLength.induct)
  case (1 m)
  show ?case
  proof (cases "m = 0")
    case True
    then show ?thesis by (simp add: bitLength.simps [of 0])
  next
    case False
    with "1.prems" obtain j where k: "k = Suc j" by (cases k) auto
    with "1.prems" have "m div 2 < 2 ^ j" by simp
    with "1.IH" False have "bitLength (m div 2) \<le> j" by simp
    with False k show ?thesis by (simp add: bitLength.simps [of m])
  qed
qed

lemma bitLength_gt: "2 ^ k \<le> m \<Longrightarrow> k < bitLength m"
proof (induction k arbitrary: m)
  case 0
  then show ?case by (simp add: bitLength.simps [of m])
next
  case (Suc k)
  then have "2 ^ k \<le> m div 2" by simp
  then have "k < bitLength (m div 2)" by (rule Suc.IH)
  moreover have "0 < (2::nat) ^ Suc k" by simp
  with Suc.prems have "m \<noteq> 0" by linarith
  ultimately show ?case by (simp add: bitLength.simps [of m])
qed

lemma bitLength_lower: "m \<noteq> 0 \<Longrightarrow> 2 ^ (bitLength m - 1) \<le> m"
proof (induction m rule: bitLength.induct)
  case (1 m)
  show ?case
  proof (cases "m div 2 = 0")
    case True
    with "1.prems" show ?thesis
      by (simp add: bitLength.simps [of m] bitLength.simps [of 0])
  next
    case False
    with "1.IH" "1.prems" have "2 ^ (bitLength (m div 2) - 1) \<le> m div 2" by simp
    then have "2 * 2 ^ (bitLength (m div 2) - 1) \<le> m" by simp
    moreover have "0 < bitLength (m div 2)"
      using False by (simp add: bitLength.simps [of "m div 2"])
    ultimately have "2 ^ bitLength (m div 2) \<le> m"
      by (cases "bitLength (m div 2)") simp_all
    with "1.prems" show ?thesis by (simp add: bitLength.simps [of m])
  qed
qed

lemma roundNat_small: "m < 2 ^ 53 \<Longrightarrow> roundNat m = m"
  by (simp add: roundNat_def bitLength_le)

lemma roundNat_cases:
  assumes "53 < bitLength m"
  shows "roundNat m = (m div 2 ^ (bitLength m - 53)) * 2 ^ (bitLength m - 53)
       \<or> roundNat m = (m div 2 ^ (bitLength m - 53) + 1) * 2 ^ (bitLength m - 53)"
proof -
  from assms have "\<not> bitLength m \<le> 53" by simp
  then show ?thesis unfolding roundNat_def Let_def by (simp only: if_False split: if_split) simp
qed

lemma roundNat_big:
  assumes "2 ^ 53 \<le> m"
  shows "2 ^ 53 \<le> roundNat m"
proof -
  define b where "b = bitLength m"
  define q :: nat where "q = 2 ^ (b - 53)"
  have b: "53 < b" unfolding b_def using assms by (rule bitLength_gt)
  have "(0::nat) < 2 ^ 53" by (rule zero_less_power) simp
  with assms have m0: "m \<noteq> 0" by linarith
  have low: "2 ^ (b - 1) \<le> m" unfolding b_def using m0 by (rule bitLength_lower)
  have q0: "0 < q" unfolding q_def by (rule zero_less_power) simp
  have "b - 1 = 52 + (b - 53)" using b by linarith
  then have "(2::nat) ^ (b - 1) = 2 ^ (52 + (b - 53))" by (simp only:)
  then have split: "(2::nat) ^ (b - 1) = 2 ^ 52 * q" by (simp only: power_add q_def)
  have "2 ^ 52 * q \<le> m" using low by (simp only: split)
  with q0 have sig: "2 ^ 52 \<le> m div q" by (simp only: less_eq_div_iff_mult_less_eq)
  have sigq: "2 ^ 52 * q \<le> (m div q) * q" using sig by (rule mult_le_mono1)
  have "53 < bitLength m" using b by (simp only: b_def)
  then have "roundNat m = (m div q) * q \<or> roundNat m = (m div q + 1) * q"
    unfolding q_def b_def by (rule roundNat_cases)
  then have "(m div q) * q \<le> roundNat m"
  proof
    assume "roundNat m = (m div q) * q"
    then show ?thesis by simp
  next
    assume "roundNat m = (m div q + 1) * q"
    then show ?thesis by simp
  qed
  with sigq have "2 ^ (b - 1) \<le> roundNat m" unfolding split by (rule order_trans)
  moreover have "(2::nat) ^ 53 \<le> 2 ^ (b - 1)"
    using b by (intro power_increasing) simp_all
  ultimately show ?thesis by (rule order_trans [rotated])
qed

lemma shortest_small:
  assumes "m < 2 ^ 53"
  shows "shortest m e = m"
proof (induction e)
  case 0
  show ?case by (simp add: shortest.simps [of m 0])
next
  case (Suc e)
  let ?q = "(10::nat) ^ Suc e"
  let ?lo = "(m div ?q) * ?q"
  let ?hi = "?lo + ?q"
  have lo: "?lo \<le> m" by simp
  have hi: "m < ?hi"
  proof -
    have "m = ?lo + m mod ?q" by (simp only: div_mult_mod_eq)
    moreover have "m mod ?q < ?q" by simp
    ultimately show ?thesis by linarith
  qed
  have "?lo < 2 ^ 53" using lo assms by (rule order_le_less_trans)
  then have "roundNat ?lo = ?lo" by (rule roundNat_small)
  then have okLo: "roundNat ?lo = m \<longleftrightarrow> ?lo = m" by (simp only:)
  have okHi: "roundNat ?hi \<noteq> m"
  proof (cases "?hi < 2 ^ 53")
    case True
    then have "roundNat ?hi = ?hi" by (rule roundNat_small)
    with hi show ?thesis by simp
  next
    case False
    then have "2 ^ 53 \<le> roundNat ?hi" by (intro roundNat_big) simp
    with assms show ?thesis by simp
  qed
  show ?case
    using okLo okHi Suc.IH
    by (subst shortest.simps) (simp add: Let_def)
qed

lemma natToString_0: "natToString 0 = ''0''"
  by code_simp

lemma numberToString_safe:
  assumes "\<bar>n\<bar> < 2 ^ 53"
  shows "numberToString (Finite n) = Number_toString n"
proof (cases "n = 0")
  case True
  then show ?thesis by (simp add: numberToString_def Number_toString_def natToString_0)
next
  case False
  have m: "nat \<bar>n\<bar> < 2 ^ 53" using assms by simp
  then have "nat \<bar>n\<bar> < 10 ^ 21" by simp
  with False m show ?thesis
    by (simp add: numberToString_def Number_toString_def shortest_small Let_def)
qed

lemma roundToDouble_safe: "\<bar>n\<bar> < 2 ^ 53 \<Longrightarrow> roundToDouble n = n"
proof -
  assume a: "\<bar>n\<bar> < 2 ^ 53"
  then have "nat \<bar>n\<bar> < 2 ^ 53" by simp
  then have "roundNat (nat \<bar>n\<bar>) = nat \<bar>n\<bar>" by (rule roundNat_small)
  then show ?thesis by (simp add: roundToDouble_def mult_sgn_abs)
qed

lemma toNumber_safe: "\<bar>n\<bar> < 2 ^ 53 \<Longrightarrow> toNumber n = Finite n"
  by (simp add: toNumber_def roundToDouble_safe)

lemma parseInt_Number_toString: "parseInt (Number_toString n) = toNumber n"
  by (simp add: parseInt_def parseInt_mathInt_Number_toString)

text \<open>
  Claim C6, as the code has it. For every integer year \<open>y\<close> from
  \<open>Number.MIN_SAFE_INTEGER + 1917\<close> to \<open>Number.MAX_SAFE_INTEGER\<close> the season id of \<open>y\<close> is
  the decimal string of \<open>y - 1917\<close>, and parsing it and adding 1917 gives \<open>y\<close> back.
\<close>

theorem season_roundtrip_safe:
  assumes "- (2 ^ 53 - 1) + 1917 \<le> y" and "y \<le> 2 ^ 53 - 1"
  shows "seasonIdForYear (Finite y) = Number_toString (y - 1917)
     \<and> yearForSeasonId (seasonIdForYear (Finite y)) = Finite y"
proof -
  have d: "\<bar>y - 1917\<bar> < 2 ^ 53" using assms by simp
  have u: "\<bar>y\<bar> < 2 ^ 53" using assms by simp
  have s: "seasonIdForYear (Finite y) = Number_toString (y - 1917)"
    using d by (simp add: seasonIdForYear_def Number_add_def toNumber_safe numberToString_safe)
  have "yearForSeasonId (Number_toString (y - 1917)) = Finite y"
    using d u
    by (simp add: yearForSeasonId_def parseInt_Number_toString toNumber_safe Number_add_def)
  with s show ?thesis by simp
qed

theorem season_roundtrip_safe_witness:
  "seasonIdForYear (Finite 2025) = ''108''
   \<and> yearForSeasonId (seasonIdForYear (Finite 2025)) = Finite 2025"
proof -
  have b: "- (2 ^ 53 - 1) + 1917 \<le> (2025::int)" "(2025::int) \<le> 2 ^ 53 - 1"
    by simp_all
  have t: "Number_toString (2025 - 1917) = ''108''"
    by code_simp
  from season_roundtrip_safe [OF b] show ?thesis unfolding t .
qed

subsection \<open>Two years outside the safe range\<close>

lemma digit_char_values:
  "digit_char 0 = CHR ''0''" "digit_char 1 = CHR ''1''" "digit_char 2 = CHR ''2''"
  "digit_char 3 = CHR ''3''" "digit_char 4 = CHR ''4''" "digit_char 5 = CHR ''5''"
  "digit_char 6 = CHR ''6''" "digit_char 7 = CHR ''7''" "digit_char 8 = CHR ''8''"
  "digit_char 9 = CHR ''9''" "digit_char (Suc 0) = CHR ''1''"
  by code_simp+

lemma numberToString_Finite:
  assumes "n \<noteq> 0" and "length (natToString (nat \<bar>n\<bar>)) - 1 = e"
    and "shortest (nat \<bar>n\<bar>) e = c"
  shows "numberToString (Finite n)
       = (if n < 0 then ''-'' else []) @ (if c < 10 ^ 21 then natToString c else exponentForm c)"
  using assms by (simp add: numberToString_def Let_def)

lemma bitLength_2p53_1: "bitLength 9007199254740993 = 54"
  by (simp add: bitLength.simps)

lemma bitLength_2p53: "bitLength 9007199254740992 = 54"
  by (simp add: bitLength.simps)

lemma roundNat_2p53_1: "roundNat 9007199254740993 = 9007199254740992"
  by (simp add: roundNat_def bitLength_2p53_1 Let_def)

lemma roundNat_2p53: "roundNat 9007199254740992 = 9007199254740992"
  by (simp add: roundNat_def bitLength_2p53 Let_def)

lemma natToString_2p53: "natToString 9007199254740992 = ''9007199254740992''"
  by (simp add: natToString.simps digit_char_values)

lemma shortest_2p53: "shortest 9007199254740992 15 = 9007199254740992"
  by (simp add: shortest.simps roundNat_def bitLength.simps Let_def)

lemma numberToString_neg_2p53:
  "numberToString (Finite (- 9007199254740992)) = ''-9007199254740992''"
proof -
  have "length (natToString (nat \<bar>- 9007199254740992\<bar>)) - 1 = 15"
    by (simp add: natToString_2p53)
  moreover have "shortest (nat \<bar>- 9007199254740992\<bar>) 15 = 9007199254740992"
    by (simp add: shortest_2p53)
  ultimately have "numberToString (Finite (- 9007199254740992))
       = (if (- 9007199254740992 :: int) < 0 then ''-'' else [])
         @ (if (9007199254740992 :: nat) < 10 ^ 21 then natToString 9007199254740992
            else exponentForm 9007199254740992)"
    by (intro numberToString_Finite) simp_all
  then show ?thesis by (simp add: natToString_2p53)
qed

lemma parseInt_neg_2p53: "parseInt ''-9007199254740992'' = Finite (- 9007199254740992)"
  by (simp add: parseInt_def parseInt_mathInt_def isWhiteSpace_def radixDigit_def Let_def
        toNumber_def roundToDouble_def roundNat_2p53)

lemma bitLength_e21: "bitLength 1000000000000000000000 = 70"
  by (simp add: bitLength.simps)

lemma bitLength_e21_low: "bitLength 999999999999999998083 = 70"
  by (simp add: bitLength.simps)

lemma bitLength_2e21: "bitLength 2000000000000000000000 = 71"
  by (simp add: bitLength.simps)

lemma roundNat_e21: "roundNat 1000000000000000000000 = 1000000000000000000000"
  by (simp add: roundNat_def bitLength_e21 Let_def)

lemma roundNat_e21_low: "roundNat 999999999999999998083 = 1000000000000000000000"
  by (simp add: roundNat_def bitLength_e21_low Let_def)

lemma roundNat_2e21: "roundNat 2000000000000000000000 = 2000000000000000000000"
  by (simp add: roundNat_def bitLength_2e21 Let_def)

lemma natToString_e21: "natToString 1000000000000000000000 = ''1000000000000000000000''"
  by (simp add: natToString.simps digit_char_values)

lemma shortest_e21: "shortest 1000000000000000000000 21 = 1000000000000000000000"
  by (subst shortest.simps) (simp add: roundNat_e21 roundNat_2e21 Let_def)

lemma exponentForm_e21: "exponentForm 1000000000000000000000 = ''1e+21''"
proof -
  have l: "length (natToString 1000000000000000000000) - 1 = 21"
    by (simp add: natToString_e21)
  have s: "rev (dropWhile (\<lambda>ch. ch = CHR ''0'') (rev (natToString 1000000000000000000000)))
             = ''1''"
    by (simp add: natToString_e21)
  have t: "natToString 21 = ''21''"
    by code_simp
  show ?thesis unfolding exponentForm_def Let_def l s t by simp
qed

lemma numberToString_e21: "numberToString (Finite 1000000000000000000000) = ''1e+21''"
proof -
  have "length (natToString (nat \<bar>1000000000000000000000\<bar>)) - 1 = 21"
    by (simp add: natToString_e21)
  moreover have "shortest (nat \<bar>1000000000000000000000\<bar>) 21 = 1000000000000000000000"
    by (simp add: shortest_e21)
  ultimately have "numberToString (Finite 1000000000000000000000)
       = (if (1000000000000000000000 :: int) < 0 then ''-'' else [])
         @ (if (1000000000000000000000 :: nat) < 10 ^ 21 then natToString 1000000000000000000000
            else exponentForm 1000000000000000000000)"
    by (intro numberToString_Finite) simp_all
  then show ?thesis by (simp add: exponentForm_e21)
qed

lemma parseInt_1e21: "parseInt ''1e+21'' = Finite 1"
  by (simp add: parseInt_def parseInt_mathInt_def isWhiteSpace_def radixDigit_def Let_def
        toNumber_def roundToDouble_def roundNat_def bitLength.simps)

text \<open>
  The claim as stated fails. The year \<open>-9007199254739076\<close> is a safe integer, but
  \<open>y - 1917\<close> is not a double and is rounded, so that the year comes back one higher. The
  year \<open>10^21\<close> is a double; its season id is printed in exponent form, of which
  \<open>parseInt\<close> reads the first digit only.
\<close>

theorem season_roundtrip_counterexample:
  "yearForSeasonId (seasonIdForYear (Finite (- 9007199254739076))) = Finite (- 9007199254739075)
   \<and> yearForSeasonId (seasonIdForYear (Finite (- 9007199254739076)))
       \<noteq> Finite (- 9007199254739076)
   \<and> roundToDouble 1000000000000000000000 = 1000000000000000000000
   \<and> seasonIdForYear (Finite 1000000000000000000000) = ''1e+21''
   \<and> yearForSeasonId (seasonIdForYear (Finite 1000000000000000000000)) = Finite 1918"
proof -
  have a: "seasonIdForYear (Finite (- 9007199254739076)) = ''-9007199254740992''"
    by (simp add: seasonIdForYear_def Number_add_def toNumber_def roundToDouble_def
          roundNat_2p53_1 numberToString_neg_2p53)
  have 1: "yearForSeasonId (seasonIdForYear (Finite (- 9007199254739076)))
             = Finite (- 9007199254739075)"
    by (simp add: a yearForSeasonId_def parseInt_neg_2p53 Number_add_def toNumber_safe)
  then have 2: "yearForSeasonId (seasonIdForYear (Finite (- 9007199254739076)))
             \<noteq> Finite (- 9007199254739076)"
    by simp
  have 3: "roundToDouble 1000000000000000000000 = 1000000000000000000000"
    by (simp add: roundToDouble_def roundNat_e21)
  have 4: "seasonIdForYear (Finite 1000000000000000000000) = ''1e+21''"
    by (simp add: seasonIdForYear_def Number_add_def toNumber_def roundToDouble_def
          roundNat_e21_low numberToString_e21)
  have 5: "yearForSeasonId (seasonIdForYear (Finite 1000000000000000000000)) = Finite 1918"
    by (simp add: 4 yearForSeasonId_def parseInt_1e21 Number_add_def toNumber_safe)
  from 1 2 3 4 5 show ?thesis by (intro conjI)
qed

subsection \<open>Cache freshness\<close>

text \<open>
  Claim C5. A cache item is valid exactly when it is present and younger than 3600000 ms
  at the moment the clock is read. The comparison is strict: an item whose age is exactly
  3600000 ms is stale. A missing item is not valid, and the function is total on it.
\<close>

theorem isCacheValid_fresh_iff:
  fixes item :: "'a CacheItem option" and e :: "'a CacheItem"
  shows "(isCacheValid now item \<longleftrightarrow> (\<exists>i. item = Some i \<and> now - timestamp i < 3600000))
   \<and> \<not> isCacheValid (timestamp e + 3600000) (Some e)
   \<and> \<not> isCacheValid now (None :: 'a CacheItem option)"
  by (cases item) (simp_all add: isCacheValid_def CACHE_DURATION_MS_def)

theorem isCacheValid_fresh_iff_witness:
  "isCacheValid 3599999 (Some \<lparr>key = KNum 1, data = ''x'', timestamp = 0\<rparr>)
   \<and> \<not> isCacheValid 3600000 (Some \<lparr>key = KNum 1, data = ''x'', timestamp = 0\<rparr>)
   \<and> \<not> isCacheValid 3599999 (None :: string CacheItem option)"
  using isCacheValid_fresh_iff [of 3599999 "Some \<lparr>key = KNum 1, data = ''x'', timestamp = 0\<rparr>"
      "\<lparr>key = KNum 1, data = ''x'', timestamp = 0\<rparr>"]
  by simp

subsection \<open>Club deduplication\<close>

lemma Map_set_keys:
  "map fst (Map_set k v m) = (if k \<in> set (map fst m) then map fst m else map fst m @ [k])"
  by (induction m) auto

lemma Map_set_map_of: "map_of (Map_set k v m) = (map_of m)(k \<mapsto> v)"
  by (induction m) (auto simp: fun_eq_iff)

lemma Set_add_keys: "map fst (Map_set k v m) = Set_add k (map fst m)"
  by (simp add: Map_set_keys Set_add_def Set_has_def)

lemma uniqueClubs_keys_gen:
  "map fst (foldl (\<lambda>m club. if keepClub club then Map_set (value club) club m else m) m raw)
   = foldl (\<lambda>s x. Set_add x s) (map fst m) (map value (filter keepClub raw))"
  by (induction raw arbitrary: m) (simp_all add: Set_add_keys)

lemma uniqueClubs_map_of_gen:
  "map_of (foldl (\<lambda>m club. if keepClub club then Map_set (value club) club m else m) m raw)
   = map_of (rev (map (\<lambda>r. (value r, r)) (filter keepClub raw)) @ m)"
proof (induction raw arbitrary: m)
  case Nil
  show ?case by simp
next
  case (Cons r raw)
  show ?case
  proof (cases "keepClub r")
    case True
    have "map_of (Map_set (value r) r m) = map_of ((value r, r) # m)"
      by (simp only: Map_set_map_of map_of.simps fst_conv snd_conv)
    then have "map_of (rev (map (\<lambda>r. (value r, r)) (filter keepClub raw)) @ Map_set (value r) r m)
             = map_of (rev (map (\<lambda>r. (value r, r)) (filter keepClub raw)) @ (value r, r) # m)"
      by (simp only: map_of_append)
    with True Cons.IH [of "Map_set (value r) r m"] show ?thesis by simp
  next
    case False
    with Cons.IH [of m] show ?thesis by simp
  qed
qed

lemma Set_of_gen:
  "distinct s \<Longrightarrow> distinct (foldl (\<lambda>s x. Set_add x s) s xs)
     \<and> set (foldl (\<lambda>s x. Set_add x s) s xs) = set s \<union> set xs"
  by (induction xs arbitrary: s) (auto simp: Set_add_def Set_has_def)

lemma distinct_Set_of: "distinct (Set_of xs)"
  using Set_of_gen [of "[]" xs] by (simp add: Set_of_def)

lemma set_Set_of: "set (Set_of xs) = set xs"
  using Set_of_gen [of "[]" xs] by (simp add: Set_of_def)

lemma Map_set_entries: "set (Map_set k v m) \<subseteq> insert (k, v) (set m)"
  by (induction m) auto

lemma uniqueClubs_entries_gen:
  "e \<in> set (foldl (\<lambda>m club. if keepClub club then Map_set (value club) club m else m) m raw)
   \<Longrightarrow> e \<in> set m \<or> (keepClub (snd e) \<and> snd e \<in> set raw \<and> fst e = value (snd e))"
proof (induction raw arbitrary: m)
  case Nil
  then show ?case by simp
next
  case (Cons r raw)
  show ?case
  proof (cases "keepClub r")
    case True
    with Cons.prems Cons.IH [of "Map_set (value r) r m"]
    have "e \<in> set (Map_set (value r) r m)
           \<or> (keepClub (snd e) \<and> snd e \<in> set raw \<and> fst e = value (snd e))"
      by simp
    then show ?thesis
      using Map_set_entries [of "value r" r m] True by auto
  next
    case False
    with Cons.prems Cons.IH [of m] show ?thesis by auto
  qed
qed

lemma uniqueClubs_entry:
  "e \<in> set (uniqueClubs raw) \<Longrightarrow> fst e = value (snd e)"
  using uniqueClubs_entries_gen [of e "[]" raw] by (simp add: uniqueClubs_def)

lemma uniqueClubs_keys:
  "map fst (uniqueClubs raw) = Set_of (map value (filter keepClub raw))"
  by (simp add: uniqueClubs_def Set_of_def uniqueClubs_keys_gen)

lemma parseClubs_ids:
  "map Club_id (parseClubs raw) = Set_of (map value (filter keepClub raw))"
proof -
  have "map Club_id (parseClubs raw) = map (\<lambda>e. value (snd e)) (uniqueClubs raw)"
    by (simp add: parseClubs_def comp_def)
  also have "\<dots> = map fst (uniqueClubs raw)"
    by (rule map_cong) (simp_all add: uniqueClubs_entry)
  finally show ?thesis by (simp add: uniqueClubs_keys)
qed

lemma map_of_rev_last:
  "map_of (rev (map (\<lambda>r. (f r, r)) xs)) k =
     (if filter (\<lambda>r. f r = k) xs = [] then None else Some (last (filter (\<lambda>r. f r = k) xs)))"
  by (induction xs rule: rev_induct) auto

lemma uniqueClubs_lookup:
  "map_of (uniqueClubs raw) k =
     (if filter (\<lambda>r. keepClub r \<and> value r = k) raw = [] then None
      else Some (last (filter (\<lambda>r. keepClub r \<and> value r = k) raw)))"
proof -
  have "filter (\<lambda>r. value r = k) (filter keepClub raw) = filter (\<lambda>r. keepClub r \<and> value r = k) raw"
    by (simp add: conj_commute)
  then show ?thesis
    using uniqueClubs_map_of_gen [of "[]" raw] map_of_rev_last [of "value" "filter keepClub raw" k]
    by (simp add: uniqueClubs_def)
qed

lemma parseClubs_name:
  assumes "c \<in> set (parseClubs raw)"
  shows "Club_name c = label (last (filter (\<lambda>r. keepClub r \<and> value r = Club_id c) raw))"
proof -
  from assms obtain e where e: "e \<in> set (uniqueClubs raw)"
    and c: "c = \<lparr>Club_id = value (snd e), Club_name = label (snd e)\<rparr>"
    by (auto simp: parseClubs_def)
  have k: "fst e = value (snd e)" using e by (rule uniqueClubs_entry)
  have "distinct (map fst (uniqueClubs raw))"
    by (simp add: uniqueClubs_keys distinct_Set_of)
  then have "map_of (uniqueClubs raw) (fst e) = Some (snd e)"
    using e by (simp add: map_of_eq_Some_iff)
  then have "snd e = last (filter (\<lambda>r. keepClub r \<and> value r = fst e) raw)"
    by (simp add: uniqueClubs_lookup split: if_splits)
  then show ?thesis using c k by simp
qed

lemma trim_empty_iff: "trim s = [] \<longleftrightarrow> (\<forall>c\<in>set s. isWhiteSpace c)"
proof -
  have "trim s = [] \<longleftrightarrow> (\<forall>c\<in>set (dropWhile isWhiteSpace s). isWhiteSpace c)"
    by (simp add: trim_def dropWhile_eq_Nil_conv)
  also have "\<dots> \<longleftrightarrow> dropWhile isWhiteSpace s = []"
  proof
    assume a: "\<forall>c\<in>set (dropWhile isWhiteSpace s). isWhiteSpace c"
    show "dropWhile isWhiteSpace s = []"
    proof (rule ccontr)
      assume n: "dropWhile isWhiteSpace s \<noteq> []"
      then have "\<not> isWhiteSpace (hd (dropWhile isWhiteSpace s))" by (rule hd_dropWhile)
      moreover have "hd (dropWhile isWhiteSpace s) \<in> set (dropWhile isWhiteSpace s)"
        using n by simp
      ultimately show False using a by blast
    qed
  next
    assume "dropWhile isWhiteSpace s = []"
    then show "\<forall>c\<in>set (dropWhile isWhiteSpace s). isWhiteSpace c"
      by (simp del: dropWhile_eq_Nil_conv)
  qed
  also have "\<dots> \<longleftrightarrow> (\<forall>c\<in>set s. isWhiteSpace c)"
    by (simp add: dropWhile_eq_Nil_conv)
  finally show ?thesis .
qed

lemma keepClub_iff:
  "keepClub r \<longleftrightarrow> value r \<noteq> 0 \<and> (\<exists>c\<in>set (label r). \<not> isWhiteSpace c)"
  by (auto simp: keepClub_def trim_empty_iff)

text \<open>
  Claim C1, as the code has it. The parsed list holds exactly one club per distinct id of
  the kept entries, in the order in which the ids first occur. An entry is kept unless
  its id is zero or its label is empty or white space only. The name of a club is the
  label of the \<^emph>\<open>last\<close> kept entry with its id: \<open>Map.set\<close> replaces the value of a key
  that is present. On the input of the claim the result is the club 1 named \<open>B\<close>.
\<close>

theorem parseClubs_dedup_last:
  "distinct (map Club_id (parseClubs raw))
   \<and> set (map Club_id (parseClubs raw)) = {value r |r. r \<in> set raw \<and> keepClub r}
   \<and> map Club_id (parseClubs raw) = Set_of (map value (filter keepClub raw))
   \<and> (\<forall>c\<in>set (parseClubs raw).
         Club_name c = label (last (filter (\<lambda>r. keepClub r \<and> value r = Club_id c) raw)))
   \<and> (keepClub r \<longleftrightarrow> value r \<noteq> 0 \<and> (\<exists>c\<in>set (label r). \<not> isWhiteSpace c))
   \<and> parseClubs [\<lparr>value = 1, label = ''A''\<rparr>, \<lparr>value = 1, label = ''B''\<rparr>,
                  \<lparr>value = 0, label = ''C''\<rparr>, \<lparr>value = 2, label = []\<rparr>]
       = [\<lparr>Club_id = 1, Club_name = ''B''\<rparr>]"
proof (intro conjI ballI)
  show "distinct (map Club_id (parseClubs raw))"
    by (simp only: parseClubs_ids distinct_Set_of)
  show "set (map Club_id (parseClubs raw)) = {value r |r. r \<in> set raw \<and> keepClub r}"
    by (simp only: parseClubs_ids set_Set_of) auto
  show "map Club_id (parseClubs raw) = Set_of (map value (filter keepClub raw))"
    by (rule parseClubs_ids)
  show "Club_name c = label (last (filter (\<lambda>r. keepClub r \<and> value r = Club_id c) raw))"
    if "c \<in> set (parseClubs raw)" for c
    using that by (rule parseClubs_name)
  show "keepClub r \<longleftrightarrow> value r \<noteq> 0 \<and> (\<exists>c\<in>set (label r). \<not> isWhiteSpace c)"
    by (rule keepClub_iff)
  show "parseClubs [\<lparr>value = 1, label = ''A''\<rparr>, \<lparr>value = 1, label = ''B''\<rparr>,
                  \<lparr>value = 0, label = ''C''\<rparr>, \<lparr>value = 2, label = []\<rparr>]
       = [\<lparr>Club_id = 1, Club_name = ''B''\<rparr>]"
    by code_simp
qed

text \<open>
  The claim as stated fails: on its own example the result is not club 1 named \<open>A\<close>.
\<close>

theorem parseClubs_first_seen_counterexample:
  "parseClubs [\<lparr>value = 1, label = ''A''\<rparr>, \<lparr>value = 1, label = ''B''\<rparr>,
               \<lparr>value = 0, label = ''C''\<rparr>, \<lparr>value = 2, label = []\<rparr>]
     \<noteq> [\<lparr>Club_id = 1, Club_name = ''A''\<rparr>]"
  by code_simp

theorem parseClubs_dedup_last_witness:
  "distinct (map Club_id (parseClubs [\<lparr>value = 7, label = ''Oslo''\<rparr>, \<lparr>value = 3, label = '' ''\<rparr>,
                                       \<lparr>value = 7, label = ''Oslo IL''\<rparr>, \<lparr>value = 5, label = ''Ski''\<rparr>]))
   \<and> parseClubs [\<lparr>value = 7, label = ''Oslo''\<rparr>, \<lparr>value = 3, label = '' ''\<rparr>,
                  \<lparr>value = 7, label = ''Oslo IL''\<rparr>, \<lparr>value = 5, label = ''Ski''\<rparr>]
       = [\<lparr>Club_id = 7, Club_name = ''Oslo IL''\<rparr>, \<lparr>Club_id = 5, Club_name = ''Ski''\<rparr>]"
proof -
  have e: "parseClubs [\<lparr>value = 7, label = ''Oslo''\<rparr>, \<lparr>value = 3, label = '' ''\<rparr>,
                  \<lparr>value = 7, label = ''Oslo IL''\<rparr>, \<lparr>value = 5, label = ''Ski''\<rparr>]
       = [\<lparr>Club_id = 7, Club_name = ''Oslo IL''\<rparr>, \<lparr>Club_id = 5, Club_name = ''Ski''\<rparr>]"
    by code_simp
  from parseClubs_dedup_last [of "[\<lparr>value = 7, label = ''Oslo''\<rparr>, \<lparr>value = 3, label = '' ''\<rparr>,
                  \<lparr>value = 7, label = ''Oslo IL''\<rparr>, \<lparr>value = 5, label = ''Ski''\<rparr>]"]
  have "distinct (map Club_id (parseClubs [\<lparr>value = 7, label = ''Oslo''\<rparr>, \<lparr>value = 3, label = '' ''\<rparr>,
                  \<lparr>value = 7, label = ''Oslo IL''\<rparr>, \<lparr>value = 5, label = ''Ski''\<rparr>]))"
    by (rule conjunct1)
  with e show ?thesis by (intro conjI)
qed

subsection \<open>The fold step\<close>

lemma recordPlayer_ok:
  assumes "dom (acc_usage acc) = dom (acc_players acc)"
  shows "\<exists>acc'. recordPlayer wk t p acc = Inr acc'
           \<and> dom (acc_usage acc') = dom (acc_players acc')
           \<and> weekSet acc' = weekSet acc"
proof (cases "unseen (acc_players acc) (Number_toString (personId p))")
  case True
  then show ?thesis
    using assms by (simp add: recordPlayer_def Let_def insert_absorb)
next
  case False
  then obtain n where "acc_players acc (Number_toString (personId p)) = Some n"
    by (auto simp: unseen_def split: option.splits)
  then have i: "Number_toString (personId p) \<in> dom (acc_usage acc)"
    using assms by auto
  then obtain row where "acc_usage acc (Number_toString (personId p)) = Some row"
    by auto
  with False assms i show ?thesis
    by (simp add: recordPlayer_def Let_def insert_absorb)
qed

lemma forEachPlayer_ok:
  "dom (acc_usage acc) = dom (acc_players acc) \<Longrightarrow>
   \<exists>acc'. forEachPlayer wk t ps acc = Inr acc'
           \<and> dom (acc_usage acc') = dom (acc_players acc')
           \<and> weekSet acc' = weekSet acc"
proof (induction ps arbitrary: acc)
  case Nil
  then show ?case by simp
next
  case (Cons p ps)
  from recordPlayer_ok [OF Cons.prems, of wk t p]
  obtain acc1 where r: "recordPlayer wk t p acc = Inr acc1"
    and d: "dom (acc_usage acc1) = dom (acc_players acc1)"
    and w: "weekSet acc1 = weekSet acc"
    by blast
  from Cons.IH [OF d] obtain acc2 where "forEachPlayer wk t ps acc1 = Inr acc2"
    "dom (acc_usage acc2) = dom (acc_players acc2)" "weekSet acc2 = weekSet acc1"
    by blast
  with r w show ?case by simp
qed

lemma distinct_Set_add: "distinct s \<Longrightarrow> distinct (Set_add x s)"
  by (simp add: Set_add_def Set_has_def)

lemma foldMatch_ok:
  assumes "dom (acc_usage acc) = dom (acc_players acc)" and "distinct (weekSet acc)"
  shows "\<exists>acc'. foldMatch sel m acc = Inr acc'
           \<and> dom (acc_usage acc') = dom (acc_players acc')
           \<and> distinct (weekSet acc')"
proof -
  define team where
    "team = (if Set_has sel (Side_id (homeTeam m)) then homeTeam m else awayTeam m)"
  show ?thesis
  proof (cases "Set_has sel (Side_id team)")
    case False
    then show ?thesis using assms by (simp add: foldMatch_def team_def Let_def)
  next
    case True
    define acc0 where "acc0 = acc\<lparr>weekSet := Set_add (week m) (weekSet acc)\<rparr>"
    have d0: "dom (acc_usage acc0) = dom (acc_players acc0)"
      using assms(1) by (simp add: acc0_def)
    from forEachPlayer_ok [OF d0, of "week m" "Side_name team" "Side_players team"]
    obtain acc' where "forEachPlayer (week m) (Side_name team) (Side_players team) acc0 = Inr acc'"
      "dom (acc_usage acc') = dom (acc_players acc')" "weekSet acc' = weekSet acc0"
      by blast
    moreover have "distinct (weekSet acc0)"
      using assms(2) by (simp add: acc0_def distinct_Set_add)
    moreover have "foldMatch sel m acc
        = forEachPlayer (week m) (Side_name team) (Side_players team) acc0"
      using True by (simp add: foldMatch_def team_def acc0_def Let_def)
    ultimately show ?thesis by simp
  qed
qed

lemma forEachMatch_ok:
  "dom (acc_usage acc) = dom (acc_players acc) \<Longrightarrow> distinct (weekSet acc) \<Longrightarrow>
   \<exists>acc'. forEachMatch sel ms acc = Inr acc'
           \<and> dom (acc_usage acc') = dom (acc_players acc')
           \<and> distinct (weekSet acc')"
proof (induction ms arbitrary: acc)
  case Nil
  then show ?case by simp
next
  case (Cons m ms)
  from foldMatch_ok [OF Cons.prems, of sel m]
  obtain acc1 where r: "foldMatch sel m acc = Inr acc1"
    and d: "dom (acc_usage acc1) = dom (acc_players acc1)"
    and w: "distinct (weekSet acc1)"
    by blast
  from Cons.IH [OF d w] obtain acc2 where "forEachMatch sel ms acc1 = Inr acc2"
    "dom (acc_usage acc2) = dom (acc_players acc2)" "distinct (weekSet acc2)"
    by blast
  with r show ?case by simp
qed

lemma weekLabel_inj: "inj weekLabel"
  by (rule injI) (simp add: weekLabel_def Number_toString_inj)

text \<open>
  Claim C9. The fold over any list of match details completes (the \<open>TypeError\<close> branch is
  never taken), and its result has weeks that are the labels \<open>Uke n\<close> of a strictly
  ascending list of week numbers, so that the labels are in numeric order and without
  duplicates, and every player id that is a key of \<open>usage\<close> is a key of \<open>players\<close>.
\<close>

theorem foldUsage_invariant:
  "\<exists>u. foldUsage sel ms = Inr u
       \<and> (\<exists>ws. weeks u = map (\<lambda>n. ''Uke '' @ Number_toString n) ws \<and> sorted ws \<and> distinct ws)
       \<and> distinct (weeks u)
       \<and> dom (usage u) \<subseteq> dom (players u)"
proof -
  have "dom (acc_usage emptyAcc) = dom (acc_players emptyAcc)" "distinct (weekSet emptyAcc)"
    by (simp_all add: emptyAcc_def)
  from forEachMatch_ok [OF this, of sel ms]
  obtain acc where r: "forEachMatch sel ms emptyAcc = Inr acc"
    and d: "dom (acc_usage acc) = dom (acc_players acc)"
    and w: "distinct (weekSet acc)"
    by blast
  define u where "u = \<lparr>players = acc_players acc,
      weeks = map weekLabel (sort (weekSet acc)), usage = acc_usage acc\<rparr>"
  have "foldUsage sel ms = Inr u"
    using r by (simp add: foldUsage_def u_def)
  moreover have "weeks u = map (\<lambda>n. ''Uke '' @ Number_toString n) (sort (weekSet acc))"
    by (simp add: u_def weekLabel_def [abs_def])
  moreover have "sorted (sort (weekSet acc))" "distinct (sort (weekSet acc))"
    using w by simp_all
  moreover have "distinct (weeks u)"
    using w by (simp add: u_def distinct_map weekLabel_inj inj_on_subset [OF weekLabel_inj])
  moreover have "dom (usage u) \<subseteq> dom (players u)"
    using d by (simp add: u_def)
  ultimately show ?thesis by blast
qed

theorem foldUsage_invariant_witness:
  "weeks (projr (foldUsage [4]
      [\<lparr>Match_id = 1, week = 10,
         homeTeam = \<lparr>Side_id = 4, Side_name = ''A'',
                      Side_players = [\<lparr>personId = 7, firstName = ''Kari'', lastName = ''Li''\<rparr>]\<rparr>,
         awayTeam = \<lparr>Side_id = 5, Side_name = ''B'', Side_players = []\<rparr>\<rparr>,
       \<lparr>Match_id = 2, week = 9,
         homeTeam = \<lparr>Side_id = 6, Side_name = ''C'', Side_players = []\<rparr>,
         awayTeam = \<lparr>Side_id = 4, Side_name = ''A'',
                      Side_players = [\<lparr>personId = 7, firstName = ''Kari'', lastName = ''Li''\<rparr>]\<rparr>\<rparr>]))
     = [''Uke 9'', ''Uke 10'']
   \<and> distinct (weeks (projr (foldUsage [4]
      [\<lparr>Match_id = 1, week = 10,
         homeTeam = \<lparr>Side_id = 4, Side_name = ''A'',
                      Side_players = [\<lparr>personId = 7, firstName = ''Kari'', lastName = ''Li''\<rparr>]\<rparr>,
         awayTeam = \<lparr>Side_id = 5, Side_name = ''B'', Side_players = []\<rparr>\<rparr>,
       \<lparr>Match_id = 2, week = 9,
         homeTeam = \<lparr>Side_id = 6, Side_name = ''C'', Side_players = []\<rparr>,
         awayTeam = \<lparr>Side_id = 4, Side_name = ''A'',
                      Side_players = [\<lparr>personId = 7, firstName = ''Kari'', lastName = ''Li''\<rparr>]\<rparr>\<rparr>])))"
proof -
  let ?ms = "[\<lparr>Match_id = 1, week = 10,
         homeTeam = \<lparr>Side_id = 4, Side_name = ''A'',
                      Side_players = [\<lparr>personId = 7, firstName = ''Kari'', lastName = ''Li''\<rparr>]\<rparr>,
         awayTeam = \<lparr>Side_id = 5, Side_name = ''B'', Side_players = []\<rparr>\<rparr>,
       \<lparr>Match_id = 2, week = 9,
         homeTeam = \<lparr>Side_id = 6, Side_name = ''C'', Side_players = []\<rparr>,
         awayTeam = \<lparr>Side_id = 4, Side_name = ''A'',
                      Side_players = [\<lparr>personId = 7, firstName = ''Kari'', lastName = ''Li''\<rparr>]\<rparr>\<rparr>]"
  have e: "weeks (projr (foldUsage [4] ?ms)) = [''Uke 9'', ''Uke 10'']"
    by code_simp
  from foldUsage_invariant [of "[4]" ?ms]
  obtain u where "foldUsage [4] ?ms = Inr u" "distinct (weeks u)"
    by blast
  then have "distinct (weeks (projr (foldUsage [4] ?ms)))" by simp
  with e show ?thesis by (intro conjI)
qed

subsection \<open>What one match records\<close>

lemma fullName_seen: "\<not> unseen (ps(k \<mapsto> fullName p)) k"
  by (simp add: unseen_def fullName_def)

lemma recordPlayer_result:
  assumes "dom (acc_usage acc) = dom (acc_players acc)"
  shows "\<exists>acc1. recordPlayer wk t p acc = Inr acc1
           \<and> acc_players acc1
               = (if unseen (acc_players acc) (playerId p)
                  then (acc_players acc)(playerId p \<mapsto> fullName p) else acc_players acc)
           \<and> acc_usage acc1
               = (acc_usage acc)(playerId p \<mapsto> (priorRow acc (playerId p))(weekLabel wk \<mapsto> t))
           \<and> weekSet acc1 = weekSet acc"
proof (cases "unseen (acc_players acc) (playerId p)")
  case True
  then show ?thesis
    by (simp add: recordPlayer_def Let_def playerId_def fullName_def priorRow_def)
next
  case False
  then obtain n where "acc_players acc (playerId p) = Some n"
    by (auto simp: unseen_def split: option.splits)
  then have "playerId p \<in> dom (acc_usage acc)"
    using assms by auto
  then obtain row where "acc_usage acc (playerId p) = Some row"
    by auto
  with False show ?thesis
    by (simp add: recordPlayer_def Let_def playerId_def priorRow_def)
qed

lemma forEachPlayer_result:
  "dom (acc_usage acc) = dom (acc_players acc) \<Longrightarrow>
   \<exists>acc'. forEachPlayer wk t ps acc = Inr acc'
     \<and> weekSet acc' = weekSet acc
     \<and> (\<forall>k. (k \<in> playerId ` set ps \<longrightarrow>
               acc_usage acc' k = Some ((priorRow acc k)(weekLabel wk \<mapsto> t))
             \<and> acc_players acc' k
                 = (if unseen (acc_players acc) k
                    then map_option fullName (find (\<lambda>q. playerId q = k) ps)
                    else acc_players acc k))
           \<and> (k \<notin> playerId ` set ps \<longrightarrow>
               acc_usage acc' k = acc_usage acc k \<and> acc_players acc' k = acc_players acc k))"
proof (induction ps arbitrary: acc)
  case Nil
  then show ?case by simp
next
  case (Cons p ps)
  let ?k0 = "playerId p"
  let ?wl = "weekLabel wk"
  from recordPlayer_result [OF Cons.prems, of wk t p]
  obtain acc1 where r: "recordPlayer wk t p acc = Inr acc1"
    and pl: "acc_players acc1
               = (if unseen (acc_players acc) ?k0
                  then (acc_players acc)(?k0 \<mapsto> fullName p) else acc_players acc)"
    and us: "acc_usage acc1 = (acc_usage acc)(?k0 \<mapsto> (priorRow acc ?k0)(?wl \<mapsto> t))"
    and w1: "weekSet acc1 = weekSet acc"
    by blast
  from recordPlayer_ok [OF Cons.prems, of wk t p] r
  have d1: "dom (acc_usage acc1) = dom (acc_players acc1)"
    by auto
  from Cons.IH [OF d1]
  obtain acc2 where f: "forEachPlayer wk t ps acc1 = Inr acc2"
    and w2: "weekSet acc2 = weekSet acc1"
    and inn: "\<And>k. k \<in> playerId ` set ps \<Longrightarrow>
               acc_usage acc2 k = Some ((priorRow acc1 k)(?wl \<mapsto> t))
             \<and> acc_players acc2 k
                 = (if unseen (acc_players acc1) k
                    then map_option fullName (find (\<lambda>q. playerId q = k) ps)
                    else acc_players acc1 k)"
    and out: "\<And>k. k \<notin> playerId ` set ps \<Longrightarrow>
               acc_usage acc2 k = acc_usage acc1 k \<and> acc_players acc2 k = acc_players acc1 k"
    by blast
  have seen0: "\<not> unseen (acc_players acc1) ?k0"
    by (simp add: pl fullName_seen)
  have name0: "acc_players acc1 ?k0
      = (if unseen (acc_players acc) ?k0 then Some (fullName p) else acc_players acc ?k0)"
    by (simp add: pl)
  have row0: "acc_usage acc1 ?k0 = Some ((priorRow acc ?k0)(?wl \<mapsto> t))"
    by (simp add: us)
  have prior0: "priorRow acc1 ?k0 = (priorRow acc ?k0)(?wl \<mapsto> t)"
    using seen0 row0 by (simp add: priorRow_def)
  have other: "acc_players acc1 k = acc_players acc k \<and> acc_usage acc1 k = acc_usage acc k
      \<and> priorRow acc1 k = priorRow acc k
      \<and> unseen (acc_players acc1) k = unseen (acc_players acc) k" if "k \<noteq> ?k0" for k
    using that by (simp add: pl us priorRow_def unseen_def)
  have key: "(k \<in> playerId ` set (p # ps) \<longrightarrow>
               acc_usage acc2 k = Some ((priorRow acc k)(?wl \<mapsto> t))
             \<and> acc_players acc2 k
                 = (if unseen (acc_players acc) k
                    then map_option fullName (find (\<lambda>q. playerId q = k) (p # ps))
                    else acc_players acc k))
           \<and> (k \<notin> playerId ` set (p # ps) \<longrightarrow>
               acc_usage acc2 k = acc_usage acc k \<and> acc_players acc2 k = acc_players acc k)" for k
  proof (cases "k = ?k0")
    case True
    show ?thesis
    proof (cases "k \<in> playerId ` set ps")
      case True
      with inn [of k] \<open>k = ?k0\<close> seen0 name0 prior0 show ?thesis by simp
    next
      case False
      with out [of k] \<open>k = ?k0\<close> name0 row0 show ?thesis by simp
    qed
  next
    case False
    then have nk: "playerId p \<noteq> k" by simp
    show ?thesis
    proof (cases "k \<in> playerId ` set ps")
      case True
      with inn [of k] other [OF False] nk show ?thesis by simp
    next
      case False
      with out [of k] other [OF \<open>k \<noteq> ?k0\<close>] nk show ?thesis by auto
    qed
  qed
  from r f w1 w2 have "forEachPlayer wk t (p # ps) acc = Inr acc2 \<and> weekSet acc2 = weekSet acc"
    by simp
  with key show ?case by blast
qed

lemma foldMatch_side:
  assumes "dom (acc_usage acc) = dom (acc_players acc)"
  shows "\<exists>acc'. forEachPlayer wk (Side_name side) (Side_players side)
                  (acc\<lparr>weekSet := Set_add wk (weekSet acc)\<rparr>) = Inr acc'
               \<and> sideRecorded wk side acc acc'"
proof -
  let ?acc0 = "acc\<lparr>weekSet := Set_add wk (weekSet acc)\<rparr>"
  have d0: "dom (acc_usage ?acc0) = dom (acc_players ?acc0)"
    using assms by simp
  have p0: "priorRow ?acc0 k = priorRow acc k" for k
    by (simp add: priorRow_def)
  from forEachPlayer_result [OF d0, of wk "Side_name side" "Side_players side"]
  obtain acc' where f: "forEachPlayer wk (Side_name side) (Side_players side) ?acc0 = Inr acc'"
    and w: "weekSet acc' = weekSet ?acc0"
    and inn: "\<And>k. k \<in> playerId ` set (Side_players side) \<Longrightarrow>
               acc_usage acc' k = Some ((priorRow ?acc0 k)(weekLabel wk \<mapsto> Side_name side))
             \<and> acc_players acc' k
                 = (if unseen (acc_players ?acc0) k
                    then map_option fullName (find (\<lambda>q. playerId q = k) (Side_players side))
                    else acc_players ?acc0 k)"
    and out: "\<And>k. k \<notin> playerId ` set (Side_players side) \<Longrightarrow>
               acc_usage acc' k = acc_usage ?acc0 k \<and> acc_players acc' k = acc_players ?acc0 k"
    by blast
  have "sideRecorded wk side acc acc'"
    unfolding sideRecorded_def
  proof (intro conjI ballI allI impI)
    show "weekSet acc' = Set_add wk (weekSet acc)" using w by simp
  next
    fix p assume "p \<in> set (Side_players side)"
    then have "playerId p \<in> playerId ` set (Side_players side)" by simp
    from inn [OF this]
    show "acc_usage acc' (playerId p)
          = Some ((priorRow acc (playerId p))(weekLabel wk \<mapsto> Side_name side))"
      and "acc_players acc' (playerId p)
          = (if unseen (acc_players acc) (playerId p)
             then map_option fullName (find (\<lambda>q. playerId q = playerId p) (Side_players side))
             else acc_players acc (playerId p))"
      by (simp_all add: p0)
  next
    fix k assume "k \<notin> playerId ` set (Side_players side)"
    from out [OF this]
    show "acc_usage acc' k = acc_usage acc k" and "acc_players acc' k = acc_players acc k"
      by simp_all
  qed
  with f show ?thesis by blast
qed

text \<open>
  Claim C10. When the home team of a match is selected, the home side is folded and nothing
  else: the home players are recorded under the home team's name for the week of the match
  (whenever the keys of \<open>usage\<close> are those of \<open>players\<close>, as they are all through the
  fold), no key that is not a home player's id is touched, and the result does not depend
  on the away side at all, selected or not. The away side is recorded in the same way
  only when the home team is not selected and the away team is; then the home players and
  the home name play no role. When neither is selected the match is skipped.
\<close>

theorem foldMatch_home_first:
  "(Side_id (homeTeam m) \<in> set sel \<longrightarrow>
      foldMatch sel m acc
        = forEachPlayer (week m) (Side_name (homeTeam m)) (Side_players (homeTeam m))
            (acc\<lparr>weekSet := Set_add (week m) (weekSet acc)\<rparr>)
      \<and> foldMatch sel (m\<lparr>awayTeam := a\<rparr>) acc = foldMatch sel m acc
      \<and> (dom (acc_usage acc) = dom (acc_players acc) \<longrightarrow>
           (\<exists>acc'. foldMatch sel m acc = Inr acc'
                  \<and> sideRecorded (week m) (homeTeam m) acc acc')))
   \<and> (Side_id (homeTeam m) \<notin> set sel \<and> Side_id (awayTeam m) \<in> set sel \<longrightarrow>
      foldMatch sel m acc
        = forEachPlayer (week m) (Side_name (awayTeam m)) (Side_players (awayTeam m))
            (acc\<lparr>weekSet := Set_add (week m) (weekSet acc)\<rparr>)
      \<and> foldMatch sel (m\<lparr>homeTeam := (homeTeam m)\<lparr>Side_name := n, Side_players := ps\<rparr>\<rparr>) acc
          = foldMatch sel m acc
      \<and> (dom (acc_usage acc) = dom (acc_players acc) \<longrightarrow>
           (\<exists>acc'. foldMatch sel m acc = Inr acc'
                  \<and> sideRecorded (week m) (awayTeam m) acc acc')))
   \<and> (Side_id (homeTeam m) \<notin> set sel \<and> Side_id (awayTeam m) \<notin> set sel \<longrightarrow>
      foldMatch sel m acc = Inr acc)"
proof -
  have side: "dom (acc_usage acc) = dom (acc_players acc) \<Longrightarrow>
      foldMatch sel m acc
        = forEachPlayer (week m) (Side_name s) (Side_players s)
            (acc\<lparr>weekSet := Set_add (week m) (weekSet acc)\<rparr>) \<Longrightarrow>
      \<exists>acc'. foldMatch sel m acc = Inr acc' \<and> sideRecorded (week m) s acc acc'" for s
    using foldMatch_side [of acc "week m" s] by simp
  have home: "foldMatch sel m acc
        = forEachPlayer (week m) (Side_name (homeTeam m)) (Side_players (homeTeam m))
            (acc\<lparr>weekSet := Set_add (week m) (weekSet acc)\<rparr>)
      \<and> foldMatch sel (m\<lparr>awayTeam := a\<rparr>) acc = foldMatch sel m acc"
    if "Side_id (homeTeam m) \<in> set sel"
    using that by (simp add: foldMatch_def Set_has_def Let_def)
  have away: "foldMatch sel m acc
        = forEachPlayer (week m) (Side_name (awayTeam m)) (Side_players (awayTeam m))
            (acc\<lparr>weekSet := Set_add (week m) (weekSet acc)\<rparr>)
      \<and> foldMatch sel (m\<lparr>homeTeam := (homeTeam m)\<lparr>Side_name := n, Side_players := ps\<rparr>\<rparr>) acc
          = foldMatch sel m acc"
    if "Side_id (homeTeam m) \<notin> set sel" "Side_id (awayTeam m) \<in> set sel"
    using that by (simp add: foldMatch_def Set_has_def Let_def)
  have skip: "foldMatch sel m acc = Inr acc"
    if "Side_id (homeTeam m) \<notin> set sel" "Side_id (awayTeam m) \<notin> set sel"
    using that by (simp add: foldMatch_def Set_has_def Let_def)
  from home away skip side show ?thesis by blast
qed

theorem foldMatch_home_first_witness:
  "acc_players (projr (foldMatch [4, 5]
       \<lparr>Match_id = 1, week = 3,
         homeTeam = \<lparr>Side_id = 4, Side_name = ''A'',
                      Side_players = [\<lparr>personId = 7, firstName = ''Kari'', lastName = ''Li''\<rparr>]\<rparr>,
         awayTeam = \<lparr>Side_id = 5, Side_name = ''B'',
                      Side_players = [\<lparr>personId = 8, firstName = ''Ola'', lastName = ''Vik''\<rparr>]\<rparr>\<rparr>
       emptyAcc)) ''7'' = Some ''Kari Li''
   \<and> map_option (\<lambda>row. row ''Uke 3'') (acc_usage (projr (foldMatch [4, 5]
       \<lparr>Match_id = 1, week = 3,
         homeTeam = \<lparr>Side_id = 4, Side_name = ''A'',
                      Side_players = [\<lparr>personId = 7, firstName = ''Kari'', lastName = ''Li''\<rparr>]\<rparr>,
         awayTeam = \<lparr>Side_id = 5, Side_name = ''B'',
                      Side_players = [\<lparr>personId = 8, firstName = ''Ola'', lastName = ''Vik''\<rparr>]\<rparr>\<rparr>
       emptyAcc)) ''7'') = Some (Some ''A'')
   \<and> acc_players (projr (foldMatch [4, 5]
       \<lparr>Match_id = 1, week = 3,
         homeTeam = \<lparr>Side_id = 4, Side_name = ''A'',
                      Side_players = [\<lparr>personId = 7, firstName = ''Kari'', lastName = ''Li''\<rparr>]\<rparr>,
         awayTeam = \<lparr>Side_id = 5, Side_name = ''B'',
                      Side_players = [\<lparr>personId = 8, firstName = ''Ola'', lastName = ''Vik''\<rparr>]\<rparr>\<rparr>
       emptyAcc)) ''8'' = None
   \<and> acc_usage (projr (foldMatch [4, 5]
       \<lparr>Match_id = 1, week = 3,
         homeTeam = \<lparr>Side_id = 4, Side_name = ''A'',
                      Side_players = [\<lparr>personId = 7, firstName = ''Kari'', lastName = ''Li''\<rparr>]\<rparr>,
         awayTeam = \<lparr>Side_id = 5, Side_name = ''B'',
                      Side_players = [\<lparr>personId = 8, firstName = ''Ola'', lastName = ''Vik''\<rparr>]\<rparr>\<rparr>
       emptyAcc)) ''8'' = None
   \<and> foldMatch [4, 5]
       \<lparr>Match_id = 1, week = 3,
         homeTeam = \<lparr>Side_id = 4, Side_name = ''A'',
                      Side_players = [\<lparr>personId = 7, firstName = ''Kari'', lastName = ''Li''\<rparr>]\<rparr>,
         awayTeam = \<lparr>Side_id = 5, Side_name = ''B'',
                      Side_players = [\<lparr>personId = 8, firstName = ''Ola'', lastName = ''Vik''\<rparr>]\<rparr>\<rparr>
       emptyAcc
     = foldMatch [4, 5]
       \<lparr>Match_id = 1, week = 3,
         homeTeam = \<lparr>Side_id = 4, Side_name = ''A'',
                      Side_players = [\<lparr>personId = 7, firstName = ''Kari'', lastName = ''Li''\<rparr>]\<rparr>,
         awayTeam = \<lparr>Side_id = 5, Side_name = ''B'', Side_players = []\<rparr>\<rparr>
       emptyAcc"
proof -
  let ?kari = "\<lparr>personId = 7, firstName = ''Kari'', lastName = ''Li''\<rparr>"
  let ?home = "\<lparr>Side_id = 4, Side_name = ''A'', Side_players = [?kari]\<rparr>"
  let ?m = "\<lparr>Match_id = 1, week = 3, homeTeam = ?home,
         awayTeam = \<lparr>Side_id = 5, Side_name = ''B'',
                      Side_players = [\<lparr>personId = 8, firstName = ''Ola'', lastName = ''Vik''\<rparr>]\<rparr>\<rparr>"
  let ?bare = "\<lparr>Side_id = 5, Side_name = ''B'', Side_players = []\<rparr>"
  have h: "Side_id (homeTeam ?m) \<in> set [4, 5]" by simp
  have d: "dom (acc_usage emptyAcc) = dom (acc_players emptyAcc)"
    by (simp add: emptyAcc_def)
  have id7: "playerId ?kari = ''7''" by code_simp
  have id8: "''8'' \<notin> playerId ` set (Side_players ?home)" by (simp add: id7)
  have n7: "fullName ?kari = ''Kari Li''" by (simp add: fullName_def)
  have wl: "weekLabel 3 = ''Uke 3''" by code_simp
  have new: "unseen (acc_players emptyAcc) k" "acc_players emptyAcc k = None"
    "acc_usage emptyAcc k = None" "priorRow emptyAcc k = Map.empty" for k
    by (simp_all add: unseen_def emptyAcc_def priorRow_def)
  from foldMatch_home_first [of ?m "[4, 5]" emptyAcc ?bare] h d
  obtain acc' where r: "foldMatch [4, 5] ?m emptyAcc = Inr acc'"
    and s: "sideRecorded (week ?m) (homeTeam ?m) emptyAcc acc'"
    and i: "foldMatch [4, 5] (?m\<lparr>awayTeam := ?bare\<rparr>) emptyAcc = foldMatch [4, 5] ?m emptyAcc"
    by blast
  from s have k7: "acc_usage acc' (playerId ?kari)
        = Some ((priorRow emptyAcc (playerId ?kari))(weekLabel 3 \<mapsto> ''A''))"
      "acc_players acc' (playerId ?kari)
        = (if unseen (acc_players emptyAcc) (playerId ?kari)
           then map_option fullName (find (\<lambda>q. playerId q = playerId ?kari) [?kari])
           else acc_players emptyAcc (playerId ?kari))"
    and k8: "acc_usage acc' ''8'' = acc_usage emptyAcc ''8''"
      "acc_players acc' ''8'' = acc_players emptyAcc ''8''"
    using id8 by (simp_all add: sideRecorded_def)
  have 1: "acc_players (projr (foldMatch [4, 5] ?m emptyAcc)) ''7'' = Some ''Kari Li''"
    using k7(2) by (simp add: r new n7 id7)
  have 2: "map_option (\<lambda>row. row ''Uke 3'')
             (acc_usage (projr (foldMatch [4, 5] ?m emptyAcc)) ''7'') = Some (Some ''A'')"
    using k7(1) by (simp add: r new wl id7)
  have 3: "acc_players (projr (foldMatch [4, 5] ?m emptyAcc)) ''8'' = None"
    using k8(2) by (simp add: r new)
  have 4: "acc_usage (projr (foldMatch [4, 5] ?m emptyAcc)) ''8'' = None"
    using k8(1) by (simp add: r new)
  from i have 5: "foldMatch [4, 5] ?m emptyAcc
     = foldMatch [4, 5] \<lparr>Match_id = 1, week = 3, homeTeam = ?home, awayTeam = ?bare\<rparr> emptyAcc"
    by simp
  from 1 2 3 4 5 show ?thesis by (intro conjI)
qed

subsection \<open>What the asynchronous computations leave unchanged\<close>

lemma keepsD: "keeps f m \<Longrightarrow> m s = (r, s') \<Longrightarrow> f s' = f s"
  by (auto simp: keeps_def dest: spec [of _ s])

lemma keeps_resolve: "keeps f (resolve x)"
  by (simp add: keeps_def resolve_def)

lemma keeps_reject: "keeps f (reject e)"
  by (simp add: keeps_def reject_def)

lemma keeps_await:
  assumes "keeps f m" and "\<And>x. keeps f (g x)"
  shows "keeps f (await m g)"
proof -
  have "f (snd (await m g s)) = f s" for s
  proof (cases "m s")
    case (Pair r s')
    then have a: "f s' = f s" using assms(1) by (rule keepsD [rotated])
    show ?thesis
    proof (cases r)
      case (Inl e)
      with Pair a show ?thesis by (simp add: await_def)
    next
      case (Inr x)
      have "f (snd (g x s')) = f s'" using assms(2) [of x] by (simp add: keeps_def)
      with Pair Inr a show ?thesis by (simp add: await_def)
    qed
  qed
  then show ?thesis by (simp add: keeps_def)
qed

lemma keeps_if: "keeps f a \<Longrightarrow> keeps f b \<Longrightarrow> keeps f (if c then a else b)"
  by simp

lemma case_prod_keeps: "(\<And>a b. keeps f (g a b)) \<Longrightarrow> keeps f (case p of (a, b) \<Rightarrow> g a b)"
  by (cases p) simp

lemma keeps_Date_now: "keeps f (Date_now env)"
  by (simp add: keeps_def Date_now_def)

lemma keeps_cachedData: "keeps f (cachedData cached)"
  by (cases cached) (simp_all add: cachedData_def keeps_resolve keeps_reject)

lemma keeps_json: "keeps f (json body)"
  by (cases body) (simp_all add: json_def keeps_resolve keeps_reject)

lemma keeps_getFromDB:
  assumes "\<And>s. f (log (DbGet storeName k) s) = f s"
  shows "keeps f (getFromDB env storeName store k)"
  using assms by (simp add: keeps_def getFromDB_def split: option.splits)

lemma keeps_fetch:
  assumes "\<And>s. f (log (Fetch req) s) = f s"
  shows "keeps f (fetch req respond)"
  using assms by (simp add: keeps_def fetch_def split: Response.splits)

lemma keeps_setToDB:
  assumes "\<And>s. f (log (DbPut storeName (key item)) s) = f s"
    and "\<And>s g. f (store_update g s) = f s"
  shows "keeps f (setToDB env storeName store_update item)"
  using assms by (simp add: keeps_def setToDB_def split: option.splits)

lemma keeps_runAll:
  "(\<And>t. t \<in> set tasks \<Longrightarrow> keeps f t) \<Longrightarrow> f (snd (runAll tasks s)) = f s"
proof (induction tasks arbitrary: s)
  case Nil
  show ?case by simp
next
  case (Cons t tasks)
  obtain r s' where t: "t s = (r, s')" by (cases "t s")
  have "keeps f t" using Cons.prems by simp
  then have a: "f s' = f s" using t by (rule keepsD)
  obtain rs s'' where rest: "runAll tasks s' = (rs, s'')" by (cases "runAll tasks s'")
  have "f (snd (runAll tasks s')) = f s'" using Cons.IH Cons.prems by simp
  with a rest have "f s'' = f s" by simp
  with t rest show ?case by simp
qed

lemma keeps_Promise_all:
  assumes "\<And>t. t \<in> set tasks \<Longrightarrow> keeps f t"
  shows "keeps f (Promise_all first tasks)"
proof -
  have "f (snd (Promise_all first tasks s)) = f s" for s
  proof -
    obtain rs s' where r: "runAll tasks s = (rs, s')" by (cases "runAll tasks s")
    have "f (snd (runAll tasks s)) = f s" using assms by (rule keeps_runAll)
    with r show ?thesis by (simp add: Promise_all_def)
  qed
  then show ?thesis by (simp add: keeps_def)
qed

lemma keeps_fetchMatchList:
  assumes "\<And>s e. \<not> matchDetailEvent e \<Longrightarrow> f (log e s) = f s"
    and "\<And>s g. f (matchListsDB_update g s) = f s"
  shows "keeps f (fetchMatchList env c i)"
  unfolding fetchMatchList_def Let_def
  by (intro keeps_await keeps_if keeps_getFromDB keeps_Date_now keeps_cachedData
        keeps_fetch keeps_setToDB keeps_resolve keeps_reject keeps_json case_prod_keeps)
    (simp_all add: assms)

lemma keeps_fetchMatchDetails:
  assumes "\<And>s e. f (log e s) = f s"
    and "\<And>s g. f (matchDetailsDB_update g s) = f s"
  shows "keeps f (fetchMatchDetails env i)"
  unfolding fetchMatchDetails_def
  by (intro keeps_await keeps_if keeps_getFromDB keeps_Date_now keeps_cachedData
        keeps_fetch keeps_setToDB keeps_resolve keeps_reject keeps_json case_prod_keeps)
    (simp_all add: assms)

subsection \<open>The analysis: validation, abort and short circuit\<close>

lemma rejections_mem: "e \<in> set (rejections rs) \<longleftrightarrow> Inl e \<in> set rs"
  by (induction rs rule: rejections.induct) auto

lemma Promise_all_rejects:
  assumes "Inl e \<in> set (fst (runAll tasks s))"
  shows "\<exists>e'. Promise_all first tasks s = (Inl e', snd (runAll tasks s))
              \<and> Inl e' \<in> set (fst (runAll tasks s))"
proof -
  obtain rs s' where r: "runAll tasks s = (rs, s')" by (cases "runAll tasks s")
  with assms have "e \<in> set (rejections rs)" by (simp add: rejections_mem)
  then have ne: "rejections rs \<noteq> []" by auto
  then have "first mod length (rejections rs) < length (rejections rs)" by simp
  then have "rejections rs ! (first mod length (rejections rs)) \<in> set (rejections rs)"
    by (rule nth_mem)
  then have "Inl (rejections rs ! (first mod length (rejections rs))) \<in> set rs"
    by (simp add: rejections_mem)
  with r ne show ?thesis by (simp add: Promise_all_def)
qed

lemma length_runAll: "length (fst (runAll tasks s)) = length tasks"
proof (induction tasks arbitrary: s)
  case Nil
  show ?case by simp
next
  case (Cons t tasks)
  obtain r s' where t: "t s = (r, s')" by (cases "t s")
  obtain rs s'' where rest: "runAll tasks s' = (rs, s'')" by (cases "runAll tasks s'")
  from Cons.IH [of s'] rest have "length rs = length tasks" by simp
  with t rest show ?case by simp
qed

lemma runAll_nth:
  "k < length tasks \<Longrightarrow> fst (runAll tasks s) ! k = fst ((tasks ! k) (taskState tasks k s))"
proof (induction tasks arbitrary: k s)
  case Nil
  then show ?case by simp
next
  case (Cons t tasks)
  obtain r s' where t: "t s = (r, s')" by (cases "t s")
  obtain rs s'' where rest: "runAll tasks s' = (rs, s'')" by (cases "runAll tasks s'")
  show ?case
  proof (cases k)
    case 0
    with t rest show ?thesis by (simp add: taskState_def)
  next
    case (Suc j)
    with Cons.prems have j: "j < length tasks" by simp
    obtain rs' s3 where part: "runAll (take j tasks) s' = (rs', s3)"
      by (cases "runAll (take j tasks) s'")
    from Cons.IH [OF j, of s'] rest part
    have "rs ! j = fst ((tasks ! j) s3)" by (simp add: taskState_def)
    with Suc t rest part show ?thesis by (simp add: taskState_def)
  qed
qed

lemma runAll_rejected_task:
  assumes "k < length tasks" and "fst ((tasks ! k) (taskState tasks k s)) = Inl e"
  shows "Inl e \<in> set (fst (runAll tasks s))"
proof -
  from assms(1) have "k < length (fst (runAll tasks s))" by (simp add: length_runAll)
  then have "fst (runAll tasks s) ! k \<in> set (fst (runAll tasks s))" by (rule nth_mem)
  with assms show ?thesis by (simp add: runAll_nth)
qed

lemma validated:
  assumes "selectedTeamIds s \<noteq> []" and "competitionId s = Some c" and "c \<noteq> 0"
  shows "handleFetchPlayerUsage env s =
     (case handleFetchPlayerUsage_try env (selectedTeamIds s) c (usageStarted s) of
        (Inl err, s5) \<Rightarrow> setLoading ''usage'' False (s5\<lparr>error := Some err\<rparr>)
      | (Inr u, s5) \<Rightarrow> setLoading ''usage'' False s5)"
  using assms by (simp add: handleFetchPlayerUsage_def noCompetition_def)

lemma usageStarted_fields:
  "playerUsage (usageStarted s) = None" "error (usageStarted s) = None"
  "trace (usageStarted s) = trace s @ [Activity]"
  by (simp_all add: usageStarted_def setLoading_def log_def)

lemma matchLists_keeps:
  assumes "\<And>s e. \<not> matchDetailEvent e \<Longrightarrow> f (log e s) = f s"
    and "\<And>s g. f (matchListsDB_update g s) = f s"
  shows "keeps f (matchLists env sel c)"
  unfolding matchLists_def
  by (rule keeps_Promise_all) (auto intro: keeps_fetchMatchList assms)

lemma matchDetails_keeps:
  assumes "\<And>s e. f (log e s) = f s"
    and "\<And>s g. f (matchDetailsDB_update g s) = f s"
  shows "keeps f (matchDetails env ids)"
  unfolding matchDetails_def
  by (rule keeps_Promise_all) (auto intro: keeps_fetchMatchDetails assms)

lemma matchLists_playerUsage: "playerUsage (snd (matchLists env sel c s)) = playerUsage s"
proof -
  have "keeps playerUsage (matchLists env sel c)"
    by (rule matchLists_keeps) (simp_all add: log_def)
  then show ?thesis by (simp add: keeps_def)
qed

lemma matchLists_error: "error (snd (matchLists env sel c s)) = error s"
proof -
  have "keeps error (matchLists env sel c)"
    by (rule matchLists_keeps) (simp_all add: log_def)
  then show ?thesis by (simp add: keeps_def)
qed

lemma matchLists_no_detail_event:
  "filter matchDetailEvent (trace (snd (matchLists env sel c s))) = filter matchDetailEvent (trace s)"
proof -
  have "keeps (\<lambda>s. filter matchDetailEvent (trace s)) (matchLists env sel c)"
    by (rule matchLists_keeps) (simp_all add: log_def)
  then show ?thesis by (simp add: keeps_def)
qed

lemma matchDetails_playerUsage: "playerUsage (snd (matchDetails env ids s)) = playerUsage s"
proof -
  have "keeps playerUsage (matchDetails env ids)"
    by (rule matchDetails_keeps) (simp_all add: log_def)
  then show ?thesis by (simp add: keeps_def)
qed

lemma try_rejects_at_lists:
  assumes "fst (matchLists env sel c s0) = Inl err"
  shows "handleFetchPlayerUsage_try env sel c s0 = (Inl err, snd (matchLists env sel c s0))"
proof -
  obtain r s1 where p: "matchLists env sel c s0 = (r, s1)"
    by (cases "matchLists env sel c s0")
  with assms have "r = Inl err" by simp
  with p show ?thesis by (simp add: handleFetchPlayerUsage_try_def await_def)
qed

lemma try_rejects_at_details:
  assumes "fst (matchLists env sel c s0) = Inr mls"
    and "Set_of (map MatchStub_id (concat mls)) \<noteq> []"
    and "fst (matchDetails env (Set_of (map MatchStub_id (concat mls)))
               (snd (matchLists env sel c s0))) = Inl err"
  shows "handleFetchPlayerUsage_try env sel c s0 =
     (Inl err, snd (matchDetails env (Set_of (map MatchStub_id (concat mls)))
                      (snd (matchLists env sel c s0))))"
proof -
  obtain r s1 where p: "matchLists env sel c s0 = (r, s1)"
    by (cases "matchLists env sel c s0")
  with assms(1) have r: "r = Inr mls" by simp
  obtain r' s2 where q: "matchDetails env (Set_of (map MatchStub_id (concat mls))) s1 = (r', s2)"
    by (cases "matchDetails env (Set_of (map MatchStub_id (concat mls))) s1")
  with assms(3) p have r': "r' = Inl err" by simp
  show ?thesis
    using p q r r' assms(2)
    by (simp add: handleFetchPlayerUsage_try_def await_def Let_def)
qed

lemma try_empty_union:
  assumes "fst (matchLists env sel c s0) = Inr mls"
    and "Set_of (map MatchStub_id (concat mls)) = []"
  shows "handleFetchPlayerUsage_try env sel c s0 =
     (Inr (), (snd (matchLists env sel c s0))\<lparr>playerUsage := Some emptyUsage\<rparr>)"
proof -
  obtain r s1 where p: "matchLists env sel c s0 = (r, s1)"
    by (cases "matchLists env sel c s0")
  with assms(1) have "r = Inr mls" by simp
  with p assms(2) show ?thesis
    by (simp add: handleFetchPlayerUsage_try_def await_def Let_def setPlayerUsage_def)
qed

lemma abort_at_lists:
  assumes "selectedTeamIds s \<noteq> []" and "competitionId s = Some c" and "c \<noteq> 0"
    and "Inl e \<in> set (fst (runAll (map (fetchMatchList env c) (selectedTeamIds s))
                              (usageStarted s)))"
  shows "playerUsage (handleFetchPlayerUsage env s) = None
     \<and> (\<exists>e'. error (handleFetchPlayerUsage env s) = Some e'
           \<and> Inl e' \<in> set (fst (runAll (map (fetchMatchList env c) (selectedTeamIds s))
                                    (usageStarted s))))"
proof -
  let ?tasks = "map (fetchMatchList env c) (selectedTeamIds s)"
  from Promise_all_rejects [OF assms(4), of "race env"]
  obtain e' where p: "Promise_all (race env) ?tasks (usageStarted s)
        = (Inl e', snd (runAll ?tasks (usageStarted s)))"
    and m: "Inl e' \<in> set (fst (runAll ?tasks (usageStarted s)))"
    by blast
  from p have f: "fst (matchLists env (selectedTeamIds s) c (usageStarted s)) = Inl e'"
    by (simp add: matchLists_def)
  have h: "handleFetchPlayerUsage env s
      = setLoading ''usage'' False
          ((snd (matchLists env (selectedTeamIds s) c (usageStarted s)))\<lparr>error := Some e'\<rparr>)"
    by (simp add: validated [OF assms(1-3)] try_rejects_at_lists [OF f])
  have "playerUsage (handleFetchPlayerUsage env s) = None"
    by (simp add: h setLoading_def matchLists_playerUsage usageStarted_fields)
  moreover have "error (handleFetchPlayerUsage env s) = Some e'"
    by (simp add: h setLoading_def)
  ultimately show ?thesis using m by blast
qed

lemma abort_at_details:
  assumes "selectedTeamIds s \<noteq> []" and "competitionId s = Some c" and "c \<noteq> 0"
    and "fst (matchLists env (selectedTeamIds s) c (usageStarted s)) = Inr mls"
    and "Inl e \<in> set (fst (runAll
            (map (fetchMatchDetails env) (Set_of (map MatchStub_id (concat mls))))
            (snd (matchLists env (selectedTeamIds s) c (usageStarted s)))))"
  shows "playerUsage (handleFetchPlayerUsage env s) = None
     \<and> (\<exists>e'. error (handleFetchPlayerUsage env s) = Some e'
           \<and> Inl e' \<in> set (fst (runAll
                (map (fetchMatchDetails env) (Set_of (map MatchStub_id (concat mls))))
                (snd (matchLists env (selectedTeamIds s) c (usageStarted s))))))"
proof -
  let ?s1 = "snd (matchLists env (selectedTeamIds s) c (usageStarted s))"
  let ?ids = "Set_of (map MatchStub_id (concat mls))"
  let ?tasks = "map (fetchMatchDetails env) ?ids"
  have ne: "?ids \<noteq> []"
    using assms(5) by (cases ?ids) auto
  from Promise_all_rejects [OF assms(5), of "race env"]
  obtain e' where p: "Promise_all (race env) ?tasks ?s1 = (Inl e', snd (runAll ?tasks ?s1))"
    and m: "Inl e' \<in> set (fst (runAll ?tasks ?s1))"
    by blast
  from p have f: "fst (matchDetails env ?ids ?s1) = Inl e'"
    by (simp add: matchDetails_def)
  have h: "handleFetchPlayerUsage env s
      = setLoading ''usage'' False ((snd (matchDetails env ?ids ?s1))\<lparr>error := Some e'\<rparr>)"
    by (simp add: validated [OF assms(1-3)] try_rejects_at_details [OF assms(4) ne f])
  have "playerUsage (handleFetchPlayerUsage env s) = None"
    by (simp add: h setLoading_def matchDetails_playerUsage matchLists_playerUsage
          usageStarted_fields)
  moreover have "error (handleFetchPlayerUsage env s) = Some e'"
    by (simp add: h setLoading_def)
  ultimately show ?thesis using m by blast
qed

lemma fetchMatchList_rejects:
  assumes "\<not> isCacheValid (clock env (Suc (length (trace s))))
           (matchListsDB s (KStr (Number_toString i @ ''-'' @ Number_toString c)))"
    and "\<not> succeeded (matchesResponse env (Suc (length (trace s))) i c)"
  shows "\<exists>e. fst (fetchMatchList env c i s) = Inl e"
  using assms
  by (simp add: fetchMatchList_def await_def getFromDB_def Date_now_def fetch_def json_def
        reject_def log_def succeeded_def Let_def
      split: option.splits Response.splits Body.splits)

lemma fetchMatchDetails_rejects:
  assumes "\<not> isCacheValid (clock env (Suc (length (trace s)))) (matchDetailsDB s (KNum i))"
    and "\<not> succeeded (matchResponse env (Suc (length (trace s))) i)"
  shows "\<exists>e. fst (fetchMatchDetails env i s) = Inl e"
  using assms
  by (simp add: fetchMatchDetails_def await_def getFromDB_def Date_now_def fetch_def json_def
        reject_def log_def succeeded_def Let_def
      split: option.splits Response.splits Body.splits)

lemma fetchMatchList_not_ok:
  assumes "dbError env (length (trace s)) = None"
    and "\<not> isCacheValid (clock env (Suc (length (trace s))))
           (matchListsDB s (KStr (Number_toString i @ ''-'' @ Number_toString c)))"
    and "matchesResponse env (Suc (length (trace s))) i c = Response status body"
    and "\<not> ok status"
  shows "fst (fetchMatchList env c i s)
           = Inl (''Failed fetching matches for team '' @ Number_toString i)"
  using assms
  by (simp add: fetchMatchList_def await_def getFromDB_def Date_now_def fetch_def
        reject_def log_def Let_def)

lemma fetchMatchDetails_not_ok:
  assumes "dbError env (length (trace s)) = None"
    and "\<not> isCacheValid (clock env (Suc (length (trace s)))) (matchDetailsDB s (KNum i))"
    and "matchResponse env (Suc (length (trace s))) i = Response status body"
    and "\<not> ok status"
  shows "fst (fetchMatchDetails env i s)
           = Inl (''Failed fetching details for match '' @ Number_toString i)"
  using assms
  by (simp add: fetchMatchDetails_def await_def getFromDB_def Date_now_def fetch_def
        reject_def log_def Let_def)

text \<open>
  Claim C3. The handler has passed the validation. When the match list request of one
  of the selected teams fails (its cache entry is not fresh, and the request fails in
  transport, is answered with a status that is not ok, or has a body that does not
  parse), or Stage C resolves and the match detail request of one of the matches fails
  in the same way, the handler ends with \<open>playerUsage\<close> null and \<open>error\<close> set to the
  message of one of the rejected tasks. The same holds whenever a task of Stage C or of
  Stage D rejects, for any reason.
\<close>

theorem analysis_aborts_on_failure:
  assumes "selectedTeamIds s \<noteq> []" and "competitionId s = Some c" and "c \<noteq> 0"
  shows
    "(k < length (selectedTeamIds s)
        \<and> \<not> isCacheValid
             (clock env (Suc (length (trace
                (taskState (map (fetchMatchList env c) (selectedTeamIds s)) k
                   (usageStarted s))))))
             (matchListsDB
                (taskState (map (fetchMatchList env c) (selectedTeamIds s)) k (usageStarted s))
                (KStr (Number_toString (selectedTeamIds s ! k) @ ''-'' @ Number_toString c)))
        \<and> \<not> succeeded
             (matchesResponse env
                (Suc (length (trace
                   (taskState (map (fetchMatchList env c) (selectedTeamIds s)) k
                      (usageStarted s)))))
                (selectedTeamIds s ! k) c) \<longrightarrow>
        playerUsage (handleFetchPlayerUsage env s) = None
        \<and> (\<exists>e'. error (handleFetchPlayerUsage env s) = Some e'
              \<and> Inl e' \<in> set (fst (runAll (map (fetchMatchList env c) (selectedTeamIds s))
                                       (usageStarted s)))))
     \<and> (fst (matchLists env (selectedTeamIds s) c (usageStarted s)) = Inr mls
        \<and> k < length (Set_of (map MatchStub_id (concat mls)))
        \<and> \<not> isCacheValid
             (clock env (Suc (length (trace
                (taskState
                   (map (fetchMatchDetails env) (Set_of (map MatchStub_id (concat mls)))) k
                   (snd (matchLists env (selectedTeamIds s) c (usageStarted s))))))))
             (matchDetailsDB
                (taskState
                   (map (fetchMatchDetails env) (Set_of (map MatchStub_id (concat mls)))) k
                   (snd (matchLists env (selectedTeamIds s) c (usageStarted s))))
                (KNum (Set_of (map MatchStub_id (concat mls)) ! k)))
        \<and> \<not> succeeded
             (matchResponse env
                (Suc (length (trace
                   (taskState
                      (map (fetchMatchDetails env) (Set_of (map MatchStub_id (concat mls)))) k
                      (snd (matchLists env (selectedTeamIds s) c (usageStarted s)))))))
                (Set_of (map MatchStub_id (concat mls)) ! k)) \<longrightarrow>
        playerUsage (handleFetchPlayerUsage env s) = None
        \<and> (\<exists>e'. error (handleFetchPlayerUsage env s) = Some e'
              \<and> Inl e' \<in> set (fst (runAll
                   (map (fetchMatchDetails env) (Set_of (map MatchStub_id (concat mls))))
                   (snd (matchLists env (selectedTeamIds s) c (usageStarted s)))))))
     \<and> (Inl e \<in> set (fst (runAll (map (fetchMatchList env c) (selectedTeamIds s))
                           (usageStarted s))) \<longrightarrow>
        playerUsage (handleFetchPlayerUsage env s) = None
        \<and> (\<exists>e'. error (handleFetchPlayerUsage env s) = Some e'
              \<and> Inl e' \<in> set (fst (runAll (map (fetchMatchList env c) (selectedTeamIds s))
                                       (usageStarted s)))))
     \<and> (fst (matchLists env (selectedTeamIds s) c (usageStarted s)) = Inr mls
        \<and> Inl e \<in> set (fst (runAll
               (map (fetchMatchDetails env) (Set_of (map MatchStub_id (concat mls))))
               (snd (matchLists env (selectedTeamIds s) c (usageStarted s))))) \<longrightarrow>
        playerUsage (handleFetchPlayerUsage env s) = None
        \<and> (\<exists>e'. error (handleFetchPlayerUsage env s) = Some e'
              \<and> Inl e' \<in> set (fst (runAll
                   (map (fetchMatchDetails env) (Set_of (map MatchStub_id (concat mls))))
                   (snd (matchLists env (selectedTeamIds s) c (usageStarted s)))))))"
proof -
  let ?sel = "selectedTeamIds s"
  let ?tasksC = "map (fetchMatchList env c) ?sel"
  let ?s1 = "snd (matchLists env ?sel c (usageStarted s))"
  let ?ids = "Set_of (map MatchStub_id (concat mls))"
  let ?tasksD = "map (fetchMatchDetails env) ?ids"
  let ?abortC = "playerUsage (handleFetchPlayerUsage env s) = None
        \<and> (\<exists>e'. error (handleFetchPlayerUsage env s) = Some e'
              \<and> Inl e' \<in> set (fst (runAll ?tasksC (usageStarted s))))"
  let ?abortD = "playerUsage (handleFetchPlayerUsage env s) = None
        \<and> (\<exists>e'. error (handleFetchPlayerUsage env s) = Some e'
              \<and> Inl e' \<in> set (fst (runAll ?tasksD ?s1)))"
  have 1: "k < length ?sel
        \<and> \<not> isCacheValid
             (clock env (Suc (length (trace (taskState ?tasksC k (usageStarted s))))))
             (matchListsDB (taskState ?tasksC k (usageStarted s))
                (KStr (Number_toString (?sel ! k) @ ''-'' @ Number_toString c)))
        \<and> \<not> succeeded
             (matchesResponse env
                (Suc (length (trace (taskState ?tasksC k (usageStarted s))))) (?sel ! k) c)
      \<longrightarrow> ?abortC"
  proof
    assume h: "k < length ?sel
        \<and> \<not> isCacheValid
             (clock env (Suc (length (trace (taskState ?tasksC k (usageStarted s))))))
             (matchListsDB (taskState ?tasksC k (usageStarted s))
                (KStr (Number_toString (?sel ! k) @ ''-'' @ Number_toString c)))
        \<and> \<not> succeeded
             (matchesResponse env
                (Suc (length (trace (taskState ?tasksC k (usageStarted s))))) (?sel ! k) c)"
    then obtain e' where
      "fst (fetchMatchList env c (?sel ! k) (taskState ?tasksC k (usageStarted s))) = Inl e'"
      using fetchMatchList_rejects [of env "taskState ?tasksC k (usageStarted s)" "?sel ! k" c]
      by blast
    with h have "fst ((?tasksC ! k) (taskState ?tasksC k (usageStarted s))) = Inl e'"
      by simp
    with h have "Inl e' \<in> set (fst (runAll ?tasksC (usageStarted s)))"
      by (intro runAll_rejected_task [of k]) simp_all
    then show ?abortC by (rule abort_at_lists [OF assms])
  qed
  have 2: "fst (matchLists env ?sel c (usageStarted s)) = Inr mls
        \<and> k < length ?ids
        \<and> \<not> isCacheValid
             (clock env (Suc (length (trace (taskState ?tasksD k ?s1)))))
             (matchDetailsDB (taskState ?tasksD k ?s1) (KNum (?ids ! k)))
        \<and> \<not> succeeded
             (matchResponse env (Suc (length (trace (taskState ?tasksD k ?s1)))) (?ids ! k))
      \<longrightarrow> ?abortD"
  proof
    assume h: "fst (matchLists env ?sel c (usageStarted s)) = Inr mls
        \<and> k < length ?ids
        \<and> \<not> isCacheValid
             (clock env (Suc (length (trace (taskState ?tasksD k ?s1)))))
             (matchDetailsDB (taskState ?tasksD k ?s1) (KNum (?ids ! k)))
        \<and> \<not> succeeded
             (matchResponse env (Suc (length (trace (taskState ?tasksD k ?s1)))) (?ids ! k))"
    then obtain e' where
      "fst (fetchMatchDetails env (?ids ! k) (taskState ?tasksD k ?s1)) = Inl e'"
      using fetchMatchDetails_rejects [of env "taskState ?tasksD k ?s1" "?ids ! k"]
      by blast
    with h have "fst ((?tasksD ! k) (taskState ?tasksD k ?s1)) = Inl e'"
      by simp
    with h have "Inl e' \<in> set (fst (runAll ?tasksD ?s1))"
      by (intro runAll_rejected_task [of k]) simp_all
    with h show ?abortD by (intro abort_at_details [OF assms]) simp_all
  qed
  have 3: "Inl e \<in> set (fst (runAll ?tasksC (usageStarted s))) \<longrightarrow> ?abortC"
    using abort_at_lists [OF assms] by blast
  have 4: "fst (matchLists env ?sel c (usageStarted s)) = Inr mls
        \<and> Inl e \<in> set (fst (runAll ?tasksD ?s1)) \<longrightarrow> ?abortD"
    using abort_at_details [OF assms] by blast
  from 1 2 3 4 show ?thesis by (intro conjI)
qed

theorem analysis_aborts_on_failure_witness:
  "playerUsage (handleFetchPlayerUsage teamTwoDown twoTeamsChosen) = None
   \<and> error (handleFetchPlayerUsage teamTwoDown twoTeamsChosen)
       = Some ''Failed fetching matches for team 2''
   \<and> playerUsage (handleFetchPlayerUsage detailsDown twoTeamsChosen) = None
   \<and> error (handleFetchPlayerUsage detailsDown twoTeamsChosen) = Some ''Failed to fetch''"
proof -
  have v: "selectedTeamIds twoTeamsChosen \<noteq> []" "competitionId twoTeamsChosen = Some 9"
    "(9::int) \<noteq> 0"
    by (simp_all add: twoTeamsChosen_def initialState_def)
  have k: "1 < length (selectedTeamIds twoTeamsChosen)"
    by (simp add: twoTeamsChosen_def initialState_def)
  have f: "\<not> isCacheValid
             (clock teamTwoDown (Suc (length (trace
                (taskState (map (fetchMatchList teamTwoDown 9) (selectedTeamIds twoTeamsChosen))
                   1 (usageStarted twoTeamsChosen))))))
             (matchListsDB
                (taskState (map (fetchMatchList teamTwoDown 9) (selectedTeamIds twoTeamsChosen))
                   1 (usageStarted twoTeamsChosen))
                (KStr (Number_toString (selectedTeamIds twoTeamsChosen ! 1) @ ''-''
                         @ Number_toString 9)))"
    by code_simp
  have r: "\<not> succeeded
             (matchesResponse teamTwoDown
                (Suc (length (trace
                   (taskState
                      (map (fetchMatchList teamTwoDown 9) (selectedTeamIds twoTeamsChosen))
                      1 (usageStarted twoTeamsChosen)))))
                (selectedTeamIds twoTeamsChosen ! 1) 9)"
    by code_simp
  have c: "fst (runAll (map (fetchMatchList teamTwoDown 9) (selectedTeamIds twoTeamsChosen))
                  (usageStarted twoTeamsChosen))
           = [Inr [\<lparr>MatchStub_id = 5\<rparr>], Inl ''Failed fetching matches for team 2'']"
    by code_simp
  have l: "fst (matchLists detailsDown (selectedTeamIds twoTeamsChosen) 9
                  (usageStarted twoTeamsChosen))
           = Inr [[\<lparr>MatchStub_id = 5\<rparr>], [\<lparr>MatchStub_id = 5\<rparr>]]"
    by code_simp
  have d: "fst (runAll (map (fetchMatchDetails detailsDown)
                    (Set_of (map MatchStub_id
                       (concat [[\<lparr>MatchStub_id = 5\<rparr>], [\<lparr>MatchStub_id = 5\<rparr>]]))))
                  (snd (matchLists detailsDown (selectedTeamIds twoTeamsChosen) 9
                          (usageStarted twoTeamsChosen))))
           = [Inl ''Failed to fetch'']"
    by code_simp
  note t = analysis_aborts_on_failure [OF v]
  from t [of 1 teamTwoDown] k f r
  have "playerUsage (handleFetchPlayerUsage teamTwoDown twoTeamsChosen) = None
        \<and> (\<exists>e'. error (handleFetchPlayerUsage teamTwoDown twoTeamsChosen) = Some e'
              \<and> Inl e' \<in> set (fst (runAll
                   (map (fetchMatchList teamTwoDown 9) (selectedTeamIds twoTeamsChosen))
                   (usageStarted twoTeamsChosen))))"
    by blast
  with c have 1: "playerUsage (handleFetchPlayerUsage teamTwoDown twoTeamsChosen) = None"
    and 2: "error (handleFetchPlayerUsage teamTwoDown twoTeamsChosen)
              = Some ''Failed fetching matches for team 2''"
    by auto
  from t [of _ detailsDown "[[\<lparr>MatchStub_id = 5\<rparr>], [\<lparr>MatchStub_id = 5\<rparr>]]"
      "''Failed to fetch''"] l d
  have 3: "playerUsage (handleFetchPlayerUsage detailsDown twoTeamsChosen) = None"
    and 4: "error (handleFetchPlayerUsage detailsDown twoTeamsChosen) = Some ''Failed to fetch''"
    by auto
  from 1 2 3 4 show ?thesis by (intro conjI)
qed

text \<open>
  Claim C7. When Stage C resolves and the set of match ids is empty, the handler sets
  \<open>playerUsage\<close> to the empty result and no error, performs no effect after Stage C, and
  the run contains no match detail request and no access to the match detail store.
\<close>

theorem empty_union_short_circuit:
  assumes "selectedTeamIds s \<noteq> []" and "competitionId s = Some c" and "c \<noteq> 0"
    and "fst (matchLists env (selectedTeamIds s) c (usageStarted s)) = Inr mls"
    and "Set_of (map MatchStub_id (concat mls)) = []"
  shows
    "handleFetchPlayerUsage env s
       = setLoading ''usage'' False
           ((snd (matchLists env (selectedTeamIds s) c (usageStarted s)))
              \<lparr>playerUsage := Some \<lparr>players = Map.empty, weeks = [], usage = Map.empty\<rparr>\<rparr>)
     \<and> playerUsage (handleFetchPlayerUsage env s)
         = Some \<lparr>players = Map.empty, weeks = [], usage = Map.empty\<rparr>
     \<and> error (handleFetchPlayerUsage env s) = None
     \<and> trace (handleFetchPlayerUsage env s)
         = trace (snd (matchLists env (selectedTeamIds s) c (usageStarted s)))
     \<and> filter matchDetailEvent (trace (handleFetchPlayerUsage env s))
         = filter matchDetailEvent (trace s)"
proof -
  let ?s1 = "snd (matchLists env (selectedTeamIds s) c (usageStarted s))"
  have h: "handleFetchPlayerUsage env s
       = setLoading ''usage'' False (?s1\<lparr>playerUsage := Some emptyUsage\<rparr>)"
    by (simp add: validated [OF assms(1-3)] try_empty_union [OF assms(4,5)])
  have 1: "handleFetchPlayerUsage env s
       = setLoading ''usage'' False
           (?s1\<lparr>playerUsage := Some \<lparr>players = Map.empty, weeks = [], usage = Map.empty\<rparr>\<rparr>)"
    by (simp add: h emptyUsage_def)
  have 2: "playerUsage (handleFetchPlayerUsage env s)
         = Some \<lparr>players = Map.empty, weeks = [], usage = Map.empty\<rparr>"
    by (simp add: h setLoading_def emptyUsage_def)
  have 3: "error (handleFetchPlayerUsage env s) = None"
    by (simp add: h setLoading_def matchLists_error usageStarted_fields)
  have 4: "trace (handleFetchPlayerUsage env s) = trace ?s1"
    by (simp add: h setLoading_def)
  have 5: "filter matchDetailEvent (trace (handleFetchPlayerUsage env s))
         = filter matchDetailEvent (trace s)"
    by (simp add: 4 matchLists_no_detail_event usageStarted_fields)
  from 1 2 3 4 5 show ?thesis by (intro conjI)
qed

theorem empty_union_short_circuit_witness:
  "playerUsage (handleFetchPlayerUsage noMatches twoTeamsChosen)
     = Some \<lparr>players = Map.empty, weeks = [], usage = Map.empty\<rparr>
   \<and> filter matchDetailEvent (trace (handleFetchPlayerUsage noMatches twoTeamsChosen)) = []
   \<and> set (trace (handleFetchPlayerUsage noMatches twoTeamsChosen))
       = {Activity,
          DbGet MatchLists (KStr ''1-9''), Fetch (GetMatches ''t'' 1 9),
          DbPut MatchLists (KStr ''1-9''),
          DbGet MatchLists (KStr ''2-9''), Fetch (GetMatches ''t'' 2 9),
          DbPut MatchLists (KStr ''2-9'')}"
proof -
  have v: "selectedTeamIds twoTeamsChosen \<noteq> []" "competitionId twoTeamsChosen = Some 9"
    "(9::int) \<noteq> 0"
    by (simp_all add: twoTeamsChosen_def initialState_def)
  have l: "fst (matchLists noMatches (selectedTeamIds twoTeamsChosen) 9
                  (usageStarted twoTeamsChosen)) = Inr [[], []]"
    by code_simp
  have u: "Set_of (map MatchStub_id (concat [[], []])) = []"
    by (simp add: Set_of_def)
  have t: "trace (snd (matchLists noMatches (selectedTeamIds twoTeamsChosen) 9
                         (usageStarted twoTeamsChosen)))
       = [Activity,
          DbGet MatchLists (KStr ''1-9''), Fetch (GetMatches ''t'' 1 9),
          DbPut MatchLists (KStr ''1-9''),
          DbGet MatchLists (KStr ''2-9''), Fetch (GetMatches ''t'' 2 9),
          DbPut MatchLists (KStr ''2-9'')]"
    by code_simp
  have e: "trace twoTeamsChosen = []"
    by (simp add: twoTeamsChosen_def initialState_def)
  note r = empty_union_short_circuit [OF v l u]
  have 1: "playerUsage (handleFetchPlayerUsage noMatches twoTeamsChosen)
     = Some \<lparr>players = Map.empty, weeks = [], usage = Map.empty\<rparr>"
    using r by (elim conjE)
  have 2: "filter matchDetailEvent (trace (handleFetchPlayerUsage noMatches twoTeamsChosen)) = []"
    using r e by (elim conjE) simp
  have "trace (handleFetchPlayerUsage noMatches twoTeamsChosen)
         = trace (snd (matchLists noMatches (selectedTeamIds twoTeamsChosen) 9
                         (usageStarted twoTeamsChosen)))"
    using r by (elim conjE)
  from this t have "trace (handleFetchPlayerUsage noMatches twoTeamsChosen)
       = [Activity,
          DbGet MatchLists (KStr ''1-9''), Fetch (GetMatches ''t'' 1 9),
          DbPut MatchLists (KStr ''1-9''),
          DbGet MatchLists (KStr ''2-9''), Fetch (GetMatches ''t'' 2 9),
          DbPut MatchLists (KStr ''2-9'')]"
    by (rule trans)
  then have 3: "set (trace (handleFetchPlayerUsage noMatches twoTeamsChosen))
       = {Activity,
          DbGet MatchLists (KStr ''1-9''), Fetch (GetMatches ''t'' 1 9),
          DbPut MatchLists (KStr ''1-9''),
          DbGet MatchLists (KStr ''2-9''), Fetch (GetMatches ''t'' 2 9),
          DbPut MatchLists (KStr ''2-9'')}"
    by (simp only: list.simps(15) empty_set)
  from 1 2 3 show ?thesis by (intro conjI)
qed

text \<open>
  Claim C8. With no team selected or no competition chosen (null, or the number zero of
  the placeholder option) the handler only sets the validation message: no effect is
  performed, the stores and \<open>playerUsage\<close> are unchanged, and so is every other cell.
\<close>

theorem analyse_requires_selection:
  assumes "selectedTeamIds s = [] \<or> competitionId s = None \<or> competitionId s = Some 0"
  shows
    "handleFetchPlayerUsage env s
       = s\<lparr>error := Some ''Please select at least one team and a competition.''\<rparr>
     \<and> trace (handleFetchPlayerUsage env s) = trace s
     \<and> stores (handleFetchPlayerUsage env s) = stores s
     \<and> playerUsage (handleFetchPlayerUsage env s) = playerUsage s"
  using assms by (auto simp: handleFetchPlayerUsage_def noCompetition_def stores_def)

theorem analyse_requires_selection_witness:
  "handleFetchPlayerUsage teamTwoDown (initialState ''108'')
     = (initialState ''108'')
         \<lparr>error := Some ''Please select at least one team and a competition.''\<rparr>
   \<and> handleFetchPlayerUsage teamTwoDown (twoTeamsChosen\<lparr>competitionId := None\<rparr>)
     = twoTeamsChosen\<lparr>competitionId := None,
         error := Some ''Please select at least one team and a competition.''\<rparr>
   \<and> trace (handleFetchPlayerUsage teamTwoDown (twoTeamsChosen\<lparr>competitionId := None\<rparr>)) = []"
proof -
  have a: "selectedTeamIds (initialState ''108'') = []
      \<or> competitionId (initialState ''108'') = None
      \<or> competitionId (initialState ''108'') = Some 0"
    by (simp add: initialState_def)
  have b: "selectedTeamIds (twoTeamsChosen\<lparr>competitionId := None\<rparr>) = []
      \<or> competitionId (twoTeamsChosen\<lparr>competitionId := None\<rparr>) = None
      \<or> competitionId (twoTeamsChosen\<lparr>competitionId := None\<rparr>) = Some 0"
    by simp
  have t: "trace (twoTeamsChosen\<lparr>competitionId := None\<rparr>) = []"
    by (simp add: twoTeamsChosen_def initialState_def)
  from analyse_requires_selection [OF a, of teamTwoDown]
    analyse_requires_selection [OF b, of teamTwoDown] t
  show ?thesis by simp
qed

subsection \<open>Cache writes\<close>

lemma fetchMatchList_failed:
  assumes "\<not> succeeded (matchesResponse env (Suc (length (trace s))) i c)"
  shows "stores (snd (fetchMatchList env c i s)) = stores s"
  using assms
  by (simp add: fetchMatchList_def await_def getFromDB_def Date_now_def fetch_def json_def
        cachedData_def resolve_def reject_def log_def succeeded_def stores_def Let_def
      split: option.splits Response.splits Body.splits)

lemma fetchMatchDetails_failed:
  assumes "\<not> succeeded (matchResponse env (Suc (length (trace s))) i)"
  shows "stores (snd (fetchMatchDetails env i s)) = stores s"
  using assms
  by (simp add: fetchMatchDetails_def await_def getFromDB_def Date_now_def fetch_def json_def
        cachedData_def resolve_def reject_def log_def succeeded_def stores_def Let_def
      split: option.splits Response.splits Body.splits)

lemma searchForClubs_try_failed:
  assumes "\<not> succeeded (searchClubsResponse env (Suc (length (trace s))) q y)"
  shows "stores (snd (searchForClubs_try env q y s)) = stores s"
  using assms
  by (simp add: searchForClubs_try_def await_def getFromDB_def Date_now_def fetch_def json_def
        cachedData_def resolve_def reject_def log_def succeeded_def stores_def Let_def
        setClubs_def
      split: option.splits Response.splits Body.splits)

lemma fetchTeams_try_failed:
  assumes "\<not> succeeded (teamsResponse env (Suc (length (trace s))) (Club_id club))"
  shows "stores (snd (fetchTeams_try env club s)) = stores s"
  using assms
  by (simp add: fetchTeams_try_def await_def getFromDB_def Date_now_def fetch_def json_def
        cachedData_def resolve_def reject_def log_def succeeded_def stores_def Let_def
        setAllTeams_def
      split: option.splits Response.splits Body.splits)

lemma fetchMatchList_rejected:
  assumes "fst (fetchMatchList env c i s) = Inl e"
  shows "stores (snd (fetchMatchList env c i s)) = stores s"
  using assms
  by (auto simp: fetchMatchList_def await_def getFromDB_def Date_now_def fetch_def json_def
        cachedData_def resolve_def reject_def setToDB_def log_def stores_def Let_def
      split: option.splits Response.splits Body.splits if_splits)

lemma fetchMatchDetails_rejected:
  assumes "fst (fetchMatchDetails env i s) = Inl e"
  shows "stores (snd (fetchMatchDetails env i s)) = stores s"
  using assms
  by (auto simp: fetchMatchDetails_def await_def getFromDB_def Date_now_def fetch_def json_def
        cachedData_def resolve_def reject_def setToDB_def log_def stores_def Let_def
      split: option.splits Response.splits Body.splits if_splits)

lemma searchForClubs_try_rejected:
  assumes "fst (searchForClubs_try env q y s) = Inl e"
  shows "stores (snd (searchForClubs_try env q y s)) = stores s"
  using assms
  by (auto simp: searchForClubs_try_def await_def getFromDB_def Date_now_def fetch_def json_def
        cachedData_def resolve_def reject_def setToDB_def log_def stores_def Let_def
        setClubs_def
      split: option.splits Response.splits Body.splits if_splits)

lemma fetchTeams_try_rejected:
  assumes "fst (fetchTeams_try env club s) = Inl e"
  shows "stores (snd (fetchTeams_try env club s)) = stores s"
  using assms
  by (auto simp: fetchTeams_try_def await_def getFromDB_def Date_now_def fetch_def json_def
        cachedData_def resolve_def reject_def setToDB_def log_def stores_def Let_def
        setAllTeams_def
      split: option.splits Response.splits Body.splits if_splits)

text \<open>
  Claim C4. On each of the four cache-or-fetch paths (club search, teams, match list,
  match details) the stores are unchanged unless the response was ok and its body was
  parsed: when the request fails in transport, the status is not ok or the body does not
  parse, nothing is stored; and whenever the path rejects, for any reason, nothing has
  been stored.
\<close>

theorem failed_fetch_writes_no_cache:
  "(\<not> succeeded (searchClubsResponse env (Suc (length (trace s))) q y) \<longrightarrow>
      stores (snd (searchForClubs_try env q y s)) = stores s)
   \<and> (\<not> succeeded (teamsResponse env (Suc (length (trace s))) (Club_id club)) \<longrightarrow>
      stores (snd (fetchTeams_try env club s)) = stores s)
   \<and> (\<not> succeeded (matchesResponse env (Suc (length (trace s))) i c) \<longrightarrow>
      stores (snd (fetchMatchList env c i s)) = stores s)
   \<and> (\<not> succeeded (matchResponse env (Suc (length (trace s))) i) \<longrightarrow>
      stores (snd (fetchMatchDetails env i s)) = stores s)
   \<and> (fst (searchForClubs_try env q y s) = Inl e \<longrightarrow>
      stores (snd (searchForClubs_try env q y s)) = stores s)
   \<and> (fst (fetchTeams_try env club s) = Inl e \<longrightarrow>
      stores (snd (fetchTeams_try env club s)) = stores s)
   \<and> (fst (fetchMatchList env c i s) = Inl e \<longrightarrow>
      stores (snd (fetchMatchList env c i s)) = stores s)
   \<and> (fst (fetchMatchDetails env i s) = Inl e \<longrightarrow>
      stores (snd (fetchMatchDetails env i s)) = stores s)"
  by (intro conjI impI)
    (simp_all add: searchForClubs_try_failed fetchTeams_try_failed fetchMatchList_failed
       fetchMatchDetails_failed searchForClubs_try_rejected fetchTeams_try_rejected
       fetchMatchList_rejected fetchMatchDetails_rejected)

theorem failed_fetch_writes_no_cache_witness:
  "stores (snd (searchForClubs_try offline ''nes'' ''108'' (initialState ''108'')))
     = stores (initialState ''108'')
   \<and> stores (snd (fetchTeams_try offline \<lparr>Club_id = 1, Club_name = ''Nesodden IF''\<rparr>
                     (initialState ''108'')))
     = stores (initialState ''108'')
   \<and> stores (snd (fetchMatchList teamTwoDown 9 2 (initialState ''108'')))
     = stores (initialState ''108'')
   \<and> stores (snd (fetchMatchDetails offline 5 (initialState ''108'')))
     = stores (initialState ''108'')
   \<and> matchListsDB (snd (fetchMatchList teamTwoDown 9 1 (initialState ''108''))) (KStr ''1-9'')
     = Some \<lparr>key = KStr ''1-9'', data = [\<lparr>MatchStub_id = 5\<rparr>], timestamp = 0\<rparr>"
proof -
  let ?s = "initialState ''108''"
  let ?club = "\<lparr>Club_id = 1, Club_name = ''Nesodden IF''\<rparr>"
  note t = failed_fetch_writes_no_cache [of _ ?s]
  have "\<not> succeeded (searchClubsResponse offline (Suc (length (trace ?s))) ''nes'' ''108'')"
    by (simp add: offline_def succeeded_def)
  with t [of offline "''nes''" "''108''"]
  have 1: "stores (snd (searchForClubs_try offline ''nes'' ''108'' ?s)) = stores ?s"
    by blast
  have "\<not> succeeded (teamsResponse offline (Suc (length (trace ?s))) (Club_id ?club))"
    by (simp add: offline_def succeeded_def)
  with t [of offline _ _ ?club]
  have 2: "stores (snd (fetchTeams_try offline ?club ?s)) = stores ?s"
    by blast
  have "\<not> succeeded (matchesResponse teamTwoDown (Suc (length (trace ?s))) 2 9)"
    by (simp add: teamTwoDown_def offline_def succeeded_def)
  with t [of teamTwoDown _ _ _ 2 9]
  have 3: "stores (snd (fetchMatchList teamTwoDown 9 2 ?s)) = stores ?s"
    by blast
  have "\<not> succeeded (matchResponse offline (Suc (length (trace ?s))) 5)"
    by (simp add: offline_def succeeded_def)
  with t [of offline _ _ _ 5]
  have 4: "stores (snd (fetchMatchDetails offline 5 ?s)) = stores ?s"
    by blast
  have 5: "matchListsDB (snd (fetchMatchList teamTwoDown 9 1 ?s)) (KStr ''1-9'')
     = Some \<lparr>key = KStr ''1-9'', data = [\<lparr>MatchStub_id = 5\<rparr>], timestamp = 0\<rparr>"
    by code_simp
  from 1 2 3 4 5 show ?thesis by (intro conjI)
qed

subsection \<open>Selecting a club\<close>

lemma keeps_setAllTeams:
  assumes "\<And>s g. f (allTeams_update g s) = f s"
  shows "keeps f (setAllTeams ts)"
  using assms by (simp add: keeps_def setAllTeams_def)

lemma keeps_fetchTeams_try:
  assumes "\<And>s e. f (log e s) = f s"
    and "\<And>s g. f (teamsDB_update g s) = f s"
    and "\<And>s g. f (allTeams_update g s) = f s"
  shows "keeps f (fetchTeams_try env club)"
  unfolding fetchTeams_try_def
  by (intro keeps_await keeps_if keeps_getFromDB keeps_Date_now keeps_cachedData
        keeps_fetch keeps_setToDB keeps_resolve keeps_reject keeps_json case_prod_keeps
        keeps_setAllTeams)
    (simp_all add: assms)

lemma fetchTeams_keeps:
  assumes "\<And>s e. f (log e s) = f s"
    and "\<And>s g. f (teamsDB_update g s) = f s"
    and "\<And>s g. f (allTeams_update g s) = f s"
    and "\<And>s g. f (loading_update g s) = f s"
    and "\<And>s g. f (error_update g s) = f s"
  shows "f (fetchTeams env s) = f s"
proof (cases "selectedClub s")
  case None
  then show ?thesis by (simp add: fetchTeams_def)
next
  case (Some club)
  let ?s3 = "(setLoading ''teams'' True (log Activity s))\<lparr>error := None\<rparr>"
  obtain r s4 where t: "fetchTeams_try env club ?s3 = (r, s4)"
    by (cases "fetchTeams_try env club ?s3")
  have "keeps f (fetchTeams_try env club)"
    using assms(1-3) by (rule keeps_fetchTeams_try)
  then have "f s4 = f ?s3" using t by (rule keepsD)
  then have k: "f s4 = f s" by (simp add: setLoading_def assms)
  show ?thesis
  proof (cases r)
    case (Inl err)
    with Some t k show ?thesis
      by (simp add: fetchTeams_def Let_def setLoading_def assms)
  next
    case (Inr u)
    with Some t k show ?thesis
      by (simp add: fetchTeams_def Let_def setLoading_def assms)
  qed
qed

lemma fetchTeams_cached:
  assumes "selectedClub s = Some club"
    and "dbError env (Suc (length (trace s))) = None"
    and "teamsDB s (KNum (Club_id club)) = Some item"
    and "isCacheValid (clock env (Suc (Suc (length (trace s))))) (Some item)"
  shows "allTeams (fetchTeams env s) = data item"
  using assms
  by (simp add: fetchTeams_def fetchTeams_try_def await_def getFromDB_def Date_now_def
        cachedData_def resolve_def setAllTeams_def setLoading_def log_def Let_def)

lemma fetchTeams_fetched:
  assumes "selectedClub s = Some club"
    and "dbError env (Suc (length (trace s))) = None"
    and "\<not> isCacheValid (clock env (Suc (Suc (length (trace s)))))
           (teamsDB s (KNum (Club_id club)))"
    and "teamsResponse env (Suc (Suc (length (trace s)))) (Club_id club)
           = Response status (Json ts)"
    and "ok status"
  shows "allTeams (fetchTeams env s) = ts"
  using assms
  by (simp add: fetchTeams_def fetchTeams_try_def await_def getFromDB_def Date_now_def
        fetch_def json_def resolve_def setAllTeams_def setToDB_def setLoading_def log_def
        Let_def
      split: option.splits)

text \<open>
  Claim C2, as the code has it. Selecting a club resets \<open>selectedTeamIds\<close> to the empty
  set and \<open>playerUsage\<close> to null, and the effect on \<open>[selectedClub]\<close> resets
  \<open>competitionId\<close> to null when React finds the selected club changed. \<open>allTeams\<close> is not
  emptied: the handler leaves it as it was, and the team listing of the new club
  replaces it when it is obtained, from a fresh cache entry or from a response that is ok
  and parses.
\<close>

theorem selectClub_resets:
  "selectedTeamIds (selectClub env changed club s) = []
   \<and> playerUsage (selectClub env changed club s) = None
   \<and> (changed \<longrightarrow> competitionId (selectClub env changed club s) = None)
   \<and> allTeams (handleSelectClub club s) = allTeams s
   \<and> (changed \<and> dbError env (Suc (length (trace s))) = None
        \<and> teamsDB s (KNum (Club_id club)) = Some item
        \<and> isCacheValid (clock env (Suc (Suc (length (trace s))))) (Some item) \<longrightarrow>
      allTeams (selectClub env changed club s) = data item)
   \<and> (changed \<and> dbError env (Suc (length (trace s))) = None
        \<and> \<not> isCacheValid (clock env (Suc (Suc (length (trace s)))))
             (teamsDB s (KNum (Club_id club)))
        \<and> teamsResponse env (Suc (Suc (length (trace s)))) (Club_id club)
             = Response status (Json ts)
        \<and> ok status \<longrightarrow>
      allTeams (selectClub env changed club s) = ts)"
proof -
  let ?s1 = "handleSelectClub club s"
  have s1: "selectedClub ?s1 = Some club" "trace ?s1 = trace s" "teamsDB ?s1 = teamsDB s"
    "selectedTeamIds ?s1 = []" "playerUsage ?s1 = None" "allTeams ?s1 = allTeams s"
    by (simp_all add: handleSelectClub_def)
  have a: "selectedTeamIds (fetchTeams env ?s1) = selectedTeamIds ?s1"
    by (rule fetchTeams_keeps) (simp_all add: log_def)
  have b: "playerUsage (fetchTeams env ?s1) = playerUsage ?s1"
    by (rule fetchTeams_keeps) (simp_all add: log_def)
  have 1: "selectedTeamIds (selectClub env changed club s) = []"
    using a s1 by (simp add: selectClub_def competitionEffect_def Let_def)
  have 2: "playerUsage (selectClub env changed club s) = None"
    using b s1 by (simp add: selectClub_def competitionEffect_def Let_def)
  have 3: "changed \<longrightarrow> competitionId (selectClub env changed club s) = None"
    by (simp add: selectClub_def competitionEffect_def Let_def)
  have 5: "changed \<and> dbError env (Suc (length (trace s))) = None
        \<and> teamsDB s (KNum (Club_id club)) = Some item
        \<and> isCacheValid (clock env (Suc (Suc (length (trace s))))) (Some item) \<longrightarrow>
      allTeams (selectClub env changed club s) = data item"
  proof
    assume h: "changed \<and> dbError env (Suc (length (trace s))) = None
        \<and> teamsDB s (KNum (Club_id club)) = Some item
        \<and> isCacheValid (clock env (Suc (Suc (length (trace s))))) (Some item)"
    then have "allTeams (fetchTeams env ?s1) = data item"
      using fetchTeams_cached [of ?s1 club env item] s1 by simp
    with h show "allTeams (selectClub env changed club s) = data item"
      by (simp add: selectClub_def competitionEffect_def Let_def)
  qed
  have 6: "changed \<and> dbError env (Suc (length (trace s))) = None
        \<and> \<not> isCacheValid (clock env (Suc (Suc (length (trace s)))))
             (teamsDB s (KNum (Club_id club)))
        \<and> teamsResponse env (Suc (Suc (length (trace s)))) (Club_id club)
             = Response status (Json ts)
        \<and> ok status \<longrightarrow>
      allTeams (selectClub env changed club s) = ts"
  proof
    assume h: "changed \<and> dbError env (Suc (length (trace s))) = None
        \<and> \<not> isCacheValid (clock env (Suc (Suc (length (trace s)))))
             (teamsDB s (KNum (Club_id club)))
        \<and> teamsResponse env (Suc (Suc (length (trace s)))) (Club_id club)
             = Response status (Json ts)
        \<and> ok status"
    then have "allTeams (fetchTeams env ?s1) = ts"
      using fetchTeams_fetched [of ?s1 club env status ts] s1 by simp
    with h show "allTeams (selectClub env changed club s) = ts"
      by (simp add: selectClub_def competitionEffect_def Let_def)
  qed
  from 1 2 3 s1(6) 5 6 show ?thesis by (intro conjI)
qed

text \<open>
  The claim as stated fails: club 1 is selected with its team loaded. After the handler
  has run for club 2 the team of club 1 is still in \<open>allTeams\<close>, and it still is after the
  effects when the remote side cannot be reached.
\<close>

theorem selectClub_keeps_allTeams_counterexample:
  "allTeams (handleSelectClub \<lparr>Club_id = 2, Club_name = ''Ski IL''\<rparr> clubOneLoaded)
     = [teamOfClub 1]
   \<and> allTeams (selectClub offline True \<lparr>Club_id = 2, Club_name = ''Ski IL''\<rparr> clubOneLoaded)
     = [teamOfClub 1]
   \<and> allTeams (selectClub offline True \<lparr>Club_id = 2, Club_name = ''Ski IL''\<rparr> clubOneLoaded)
     \<noteq> []"
proof -
  have 1: "allTeams (handleSelectClub \<lparr>Club_id = 2, Club_name = ''Ski IL''\<rparr> clubOneLoaded)
     = [teamOfClub 1]"
    by (simp add: handleSelectClub_def clubOneLoaded_def)
  have 2: "allTeams (selectClub offline True \<lparr>Club_id = 2, Club_name = ''Ski IL''\<rparr> clubOneLoaded)
     = [teamOfClub 1]"
    by code_simp
  then have 3: "allTeams (selectClub offline True \<lparr>Club_id = 2, Club_name = ''Ski IL''\<rparr>
                            clubOneLoaded) \<noteq> []"
    by simp
  from 1 2 3 show ?thesis by (intro conjI)
qed

theorem selectClub_resets_witness:
  "selectedTeamIds (selectClub teamsServed True \<lparr>Club_id = 2, Club_name = ''Ski IL''\<rparr>
                      clubOneLoaded) = []
   \<and> playerUsage (selectClub teamsServed True \<lparr>Club_id = 2, Club_name = ''Ski IL''\<rparr>
                     clubOneLoaded) = None
   \<and> competitionId (selectClub teamsServed True \<lparr>Club_id = 2, Club_name = ''Ski IL''\<rparr>
                       clubOneLoaded) = None
   \<and> allTeams (selectClub teamsServed True \<lparr>Club_id = 2, Club_name = ''Ski IL''\<rparr>
                  clubOneLoaded) = [teamOfClub 2]"
proof -
  let ?club = "\<lparr>Club_id = 2, Club_name = ''Ski IL''\<rparr>"
  have h: "True \<and> dbError teamsServed (Suc (length (trace clubOneLoaded))) = None
        \<and> \<not> isCacheValid (clock teamsServed (Suc (Suc (length (trace clubOneLoaded)))))
             (teamsDB clubOneLoaded (KNum (Club_id ?club)))
        \<and> teamsResponse teamsServed (Suc (Suc (length (trace clubOneLoaded)))) (Club_id ?club)
             = Response 200 (Json [teamOfClub 2])
        \<and> ok 200"
    by (simp add: teamsServed_def offline_def clubOneLoaded_def initialState_def
          isCacheValid_def ok_def)
  note t = selectClub_resets [of teamsServed True ?club clubOneLoaded
      "\<lparr>key = KNum 2, data = [], timestamp = 0\<rparr>" 200 "[teamOfClub 2]"]
  from t have 1: "selectedTeamIds (selectClub teamsServed True ?club clubOneLoaded) = []"
    by blast
  from t have 2: "playerUsage (selectClub teamsServed True ?club clubOneLoaded) = None"
    by blast
  from t have 3: "competitionId (selectClub teamsServed True ?club clubOneLoaded) = None"
    by blast
  from t h have 4: "allTeams (selectClub teamsServed True ?club clubOneLoaded) = [teamOfClub 2]"
    by blast
  from 1 2 3 4 show ?thesis by (intro conjI)
qed

end
